theory Spec2Isabelle
  imports Complex_Main
begin

section \<open>Numeric model\<close>

text \<open>
  The engine and the retriever are numpy programs over float64 arrays. This development
  reads every float as a real number: \<open>+\<close>, \<open>*\<close>, \<open>/\<close>, \<open>sqrt\<close> and \<open>exp\<close> are the exact
  operations, so rounding, overflow, infinities and NaN are outside the model. The one
  place where the source produces NaN from exact inputs, the mean of an empty list, is
  modelled by an option (\<open>None\<close> is NaN). A one-dimensional array is a \<open>real list\<close>, a
  two-dimensional array the list of its rows, all of one length. Every exception the
  source can raise is a value of \<open>error\<close>. The functions of numpy that the source calls
  (\<open>np.dot\<close>, \<open>np.linalg.norm\<close>, \<open>np.linalg.svd\<close> and the others) are modelled from
  their documented behaviour, under their numpy names. \<open>np.argsort\<close>, whose default kind
  fixes no order among equal keys, is a parameter of the functions that sort with it.

  The source guards the SVD call by a bare \<open>except\<close>. On real numbers the decomposition
  always exists; to keep the branch, the functions of the engine take a predicate
  \<open>converged\<close> that tells on which residuals the call returns, and the functions under the
  source's names are the instances where it always does.
\<close>

datatype error = MissingEmbedding | ShapeMismatch | IndexError | EmptyReduction | NotANumber

definition bindE :: "error + 'a \<Rightarrow> ('a \<Rightarrow> error + 'b) \<Rightarrow> error + 'b" where
  "bindE m f = (case m of Inl e \<Rightarrow> Inl e | Inr x \<Rightarrow> f x)"

definition eps :: real where
  \<comment> \<open>the literal \<open>1e-8\<close>\<close>
  "eps = 1 / 10 ^ 8"

definition dot :: "real list \<Rightarrow> real list \<Rightarrow> real" where
  "dot xs ys = sum_list (map2 (*) xs ys)"

definition np_dot :: "real list \<Rightarrow> real list \<Rightarrow> error + real" where
  \<comment> \<open>\<open>np.dot\<close> of two 1-D arrays: ValueError unless the lengths agree\<close>
  "np_dot xs ys = (if length xs = length ys then Inr (dot xs ys) else Inl ShapeMismatch)"

definition np_linalg_norm :: "real list \<Rightarrow> real" where
  "np_linalg_norm xs = sqrt (sum_list (map (\<lambda>x. x * x) xs))"

definition np_sub :: "real list \<Rightarrow> real list \<Rightarrow> real list" where
  \<comment> \<open>elementwise difference of two arrays of one length\<close>
  "np_sub xs ys = map2 (-) xs ys"

definition np_mul :: "real list \<Rightarrow> real list \<Rightarrow> error + real list" where
  \<comment> \<open>elementwise product with numpy broadcasting of a length-1 operand\<close>
  "np_mul xs ys =
     (if length xs = length ys then Inr (map2 (*) xs ys)
      else if length ys = 1 then Inr (map (\<lambda>x. x * hd ys) xs)
      else if length xs = 1 then Inr (map (\<lambda>y. hd xs * y) ys)
      else Inl ShapeMismatch)"

definition np_iadd :: "real list \<Rightarrow> real list \<Rightarrow> error + real list" where
  \<comment> \<open>\<open>N += x\<close>: the right operand must broadcast to the shape of the left one\<close>
  "np_iadd N x =
     (if length x = length N then Inr (map2 (+) N x)
      else if length x = 1 then Inr (map (\<lambda>n. n + hd x) N)
      else Inl ShapeMismatch)"

definition column :: "real list list \<Rightarrow> nat \<Rightarrow> error + real list" where
  \<comment> \<open>\<open>U[:, i]\<close>: IndexError when the array has no column \<open>i\<close>\<close>
  "column U i =
     (if \<forall>row \<in> set U. i < length row then Inr (map (\<lambda>row. row ! i) U) else Inl IndexError)"

definition matvec :: "real list list \<Rightarrow> real list \<Rightarrow> error + real list" where
  \<comment> \<open>\<open>W @ v\<close> for a 2-D \<open>W\<close>: ValueError unless every row has the length of \<open>v\<close>\<close>
  "matvec W v =
     (if \<forall>row \<in> set W. length row = length v then Inr (map (\<lambda>row. dot row v) W)
      else Inl ShapeMismatch)"

fun cumsum_from :: "real \<Rightarrow> real list \<Rightarrow> real list" where
  "cumsum_from a [] = []"
| "cumsum_from a (x # xs) = (a + x) # cumsum_from (a + x) xs"

definition np_cumsum :: "real list \<Rightarrow> real list" where
  "np_cumsum xs = cumsum_from 0 xs"

section \<open>Data model\<close>

record ContextEmbedding =
  vector :: "real list"
  dimension :: nat
  model_id :: string

record QueryEmbedding =
  qvector :: "real list"
  qdimension :: nat

record ContextBlock =
  block_id :: string
  content :: string
  embedding :: "ContextEmbedding option"
  metadata :: "(string \<times> string) list"
  created_at :: nat
  relevance_score :: "real option"
  superfluous_score :: "real option"
  noise_score :: "real option"

definition ContextEmbedding_from_numpy :: "real list \<Rightarrow> ContextEmbedding" where
  \<comment> \<open>\<open>ContextEmbedding.from_numpy\<close> of a 1-D array, with the default \<open>model_id\<close>\<close>
  "ContextEmbedding_from_numpy arr =
     \<lparr> vector = arr, dimension = length arr, model_id = ''default'' \<rparr>"

definition ContextBlock_new :: "string \<Rightarrow> string \<Rightarrow> ContextEmbedding option \<Rightarrow> ContextBlock" where
  \<comment> \<open>the dataclass constructor with its defaults: no metadata, the three scores unset;
      the creation time is not modelled\<close>
  "ContextBlock_new id' content' embedding' =
     \<lparr> block_id = id', content = content', embedding = embedding', metadata = [],
       created_at = 0, relevance_score = None, superfluous_score = None, noise_score = None \<rparr>"

record Query =
  query_id :: string
  query_text :: string
  q_embedding :: "QueryEmbedding option"
  constraints :: "string list"

record DecompositionResult =
  dr_Y :: "real list"
  dr_R :: "real list"
  dr_S :: "real list"
  dr_N :: "real list"
  relevance_ratio :: real
  superfluous_ratio :: real
  noise_ratio :: real
  signal_quality :: real
  confidence :: real
  r_components :: int
  s_components :: int
  n_components :: int

record YSRNEngine =
  relevance_threshold :: real
  noise_threshold :: real
  num_components :: int
  W_relevance :: "real list list option"
  W_superfluous :: "real list list option"

section \<open>Decomposition engine\<close>

definition YSRNEngine_init :: "real \<Rightarrow> real \<Rightarrow> int \<Rightarrow> YSRNEngine" where
  \<comment> \<open>\<open>YSRNEngine.__init__\<close>; the defaults are \<open>0.3\<close>, \<open>0.1\<close> and \<open>64\<close>\<close>
  "YSRNEngine_init relevance_threshold' noise_threshold' num_components' =
     \<lparr> relevance_threshold = relevance_threshold',
       noise_threshold = noise_threshold',
       num_components = num_components',
       W_relevance = None,
       W_superfluous = None \<rparr>"

definition np_linalg_svd :: "real list \<Rightarrow> real list list \<times> real list \<times> real list list" where
  \<comment> \<open>numpy's \<open>np.linalg.svd\<close> on an \<open>n \<times> 1\<close> column \<open>r\<close> with
      \<open>full_matrices=False\<close>, from its contract: an \<open>n \<times> 1\<close> \<open>U\<close> with a unit column,
      one singular value, the norm of \<open>r\<close>, and a \<open>1 \<times> 1\<close> \<open>Vt\<close>, with
      \<open>U * s * Vt = r\<close>; for \<open>n = 0\<close> the spectrum is empty\<close>
  "np_linalg_svd r =
     (if r = [] then ([], [], [])
      else let s0 = np_linalg_norm r;
               u = (if s0 = 0 then 1 # replicate (length r - 1) 0 else map (\<lambda>x. x / s0) r)
           in (map (\<lambda>x. [x]) u, [s0], [[1]]))"

fun accumulate_noise ::
  "real list list \<Rightarrow> real list \<Rightarrow> real list list \<Rightarrow> nat list \<Rightarrow> real list \<Rightarrow> error + real list"
where
  "accumulate_noise U s Vt [] N = Inr N"
| "accumulate_noise U s Vt (i # is) N =
     (if i < length s then
        (if length Vt > i then
           (case column U i of
              Inl e \<Rightarrow> Inl e
            | Inr u \<Rightarrow>
                (case np_mul (map (\<lambda>x. s ! i * x) u) (Vt ! i) of
                   Inl e \<Rightarrow> Inl e
                 | Inr t \<Rightarrow>
                     (case np_iadd N t of
                        Inl e \<Rightarrow> Inl e
                      | Inr N' \<Rightarrow> accumulate_noise U s Vt is N')))
         else accumulate_noise U s Vt is N)
      else accumulate_noise U s Vt is N)"

definition separate_noise ::
  "(real list \<Rightarrow> bool) \<Rightarrow> YSRNEngine \<Rightarrow> real list \<Rightarrow> error + (real list \<times> real list \<times> nat list)"
where
  \<comment> \<open>Step 3 of \<open>YSRNEngine.decompose\<close> (the SVD, the energy threshold and the
      reconstruction of \<open>N\<close>), returning \<open>N\<close>, \<open>s\<close> and \<open>noise_indices\<close>.
      \<open>converged\<close> tells on which residuals \<open>np.linalg.svd\<close> returns; on the others it
      raises and the \<open>except\<close> branch supplies the fallback\<close>
  "separate_noise converged self residual =
     (let (U, s, Vt) = (if converged residual then np_linalg_svd residual
                        else ([[1]], [np_linalg_norm residual], [[1]]));
          total_energy = sum_list (map (\<lambda>x. x ^ 2) s);
          cumulative_energy =
            map (\<lambda>x. x / (total_energy + eps)) (np_cumsum (map (\<lambda>x. x ^ 2) s));
          noise_indices =
            filter (\<lambda>i. cumulative_energy ! i > 1 - noise_threshold self)
              [0 ..< length cumulative_energy]
      in bindE (if length noise_indices > 0
                then accumulate_noise U s Vt noise_indices (replicate (length residual) 0)
                else Inr (replicate (length residual) 0)) (\<lambda>N.
         Inr (N, s, noise_indices)))"

definition decompose_with ::
  "(real list \<Rightarrow> bool) \<Rightarrow> YSRNEngine \<Rightarrow> real list \<Rightarrow> real list \<Rightarrow> error + DecompositionResult"
where
  \<comment> \<open>\<open>YSRNEngine.decompose\<close>, for an SVD routine that returns on the residuals of
      \<open>converged\<close>\<close>
  "decompose_with converged self context_embedding query_embedding =
     (let Y = map (\<lambda>x. x / (np_linalg_norm context_embedding + eps)) context_embedding;
          q = map (\<lambda>x. x / (np_linalg_norm query_embedding + eps)) query_embedding
      in bindE (np_dot Y q) (\<lambda>relevance_coeff.
      let R_init = map (\<lambda>x. relevance_coeff * x) q;
          residual = np_sub Y R_init
      in bindE (separate_noise converged self residual) (\<lambda>(N, s, noise_indices).
      let S = np_sub residual N
      in bindE (case W_relevance self of
                  Some W \<Rightarrow> matvec W R_init
                | None \<Rightarrow> Inr R_init) (\<lambda>R.
      let R_norm = np_linalg_norm R;
          S_norm = np_linalg_norm S;
          N_norm = np_linalg_norm N;
          total_norm = R_norm + S_norm + N_norm + eps
      in Inr \<lparr> dr_Y = Y, dr_R = R, dr_S = S, dr_N = N,
               relevance_ratio = R_norm / total_norm,
               superfluous_ratio = S_norm / total_norm,
               noise_ratio = N_norm / total_norm,
               signal_quality = R_norm / (S_norm + N_norm + eps),
               confidence = \<bar>relevance_coeff\<bar>,
               r_components = 1,
               s_components = max 0 (int (length s) - int (length noise_indices) - 1),
               n_components = int (length noise_indices) \<rparr>))))"

definition decompose :: "YSRNEngine \<Rightarrow> real list \<Rightarrow> real list \<Rightarrow> error + DecompositionResult" where
  \<comment> \<open>on real numbers the SVD of a column always exists\<close>
  "decompose = decompose_with (\<lambda>_. True)"

definition classify_context_with ::
  "(real list \<Rightarrow> bool) \<Rightarrow> YSRNEngine \<Rightarrow> ContextBlock \<Rightarrow> Query \<Rightarrow> error + ContextBlock"
where
  "classify_context_with converged self context query =
     (case (embedding context, q_embedding query) of
        (Some ce, Some qe) \<Rightarrow>
          bindE (decompose_with converged self (vector ce) (qvector qe)) (\<lambda>result.
            Inr (context \<lparr> relevance_score := Some (relevance_ratio result),
                           superfluous_score := Some (superfluous_ratio result),
                           noise_score := Some (noise_ratio result) \<rparr>))
      | _ \<Rightarrow> Inl MissingEmbedding)"

definition classify_context :: "YSRNEngine \<Rightarrow> ContextBlock \<Rightarrow> Query \<Rightarrow> error + ContextBlock" where
  "classify_context = classify_context_with (\<lambda>_. True)"

fun batch_classify_with ::
  "(real list \<Rightarrow> bool) \<Rightarrow> YSRNEngine \<Rightarrow> ContextBlock list \<Rightarrow> Query \<Rightarrow> error + ContextBlock list"
where
  \<comment> \<open>the list comprehension of \<open>batch_classify\<close>: the first exception ends it\<close>
  "batch_classify_with converged self [] query = Inr []"
| "batch_classify_with converged self (ctx # contexts) query =
     (case classify_context_with converged self ctx query of
        Inl e \<Rightarrow> Inl e
      | Inr ctx' \<Rightarrow>
          (case batch_classify_with converged self contexts query of
             Inl e \<Rightarrow> Inl e
           | Inr contexts' \<Rightarrow> Inr (ctx' # contexts')))"

definition batch_classify :: "YSRNEngine \<Rightarrow> ContextBlock list \<Rightarrow> Query \<Rightarrow> error + ContextBlock list" where
  "batch_classify = batch_classify_with (\<lambda>_. True)"

record ContextClassifier =
  ysrn_engine :: YSRNEngine

definition classify_with ::
  "(real list \<Rightarrow> bool) \<Rightarrow> ContextClassifier \<Rightarrow> ContextBlock \<Rightarrow> Query \<Rightarrow> error + ContextBlock"
where
  \<comment> \<open>\<open>ContextClassifier.classify\<close>\<close>
  "classify_with converged self context query =
     classify_context_with converged (ysrn_engine self) context query"

definition classify :: "ContextClassifier \<Rightarrow> ContextBlock \<Rightarrow> Query \<Rightarrow> error + ContextBlock" where
  "classify = classify_with (\<lambda>_. True)"

definition noise_of :: "bool \<Rightarrow> real \<Rightarrow> real list \<Rightarrow> real list" where
  \<comment> \<open>closed form of the \<open>N\<close> that \<open>separate_noise\<close> computes (lemma \<open>separate_noise_eq\<close>);
      used in proofs only\<close>
  "noise_of conv t r =
     (if (np_linalg_norm r)\<^sup>2 / ((np_linalg_norm r)\<^sup>2 + eps) > 1 - t \<and> (r \<noteq> [] \<or> \<not> conv)
      then (if conv then r else replicate (length r) (np_linalg_norm r))
      else replicate (length r) 0)"

section \<open>Gated retriever\<close>

record GatedContextRetriever =
  num_heads :: nat
  head_dim :: nat
  W_gate :: "real list list"
  gate_bias :: "real list"

definition GatedContextRetriever_init ::
  "nat \<Rightarrow> nat \<Rightarrow> real \<Rightarrow> real list list \<Rightarrow> GatedContextRetriever"
where
  \<comment> \<open>\<open>GatedContextRetriever.__init__\<close>; \<open>randn\<close> is the draw of
      \<open>np.random.randn(hidden_dim, hidden_dim)\<close>; the defaults are 8, 64 and \<open>-2.0\<close>\<close>
  "GatedContextRetriever_init num_heads' head_dim' gate_init_bias randn =
     (let hidden_dim = num_heads' * head_dim'
      in \<lparr> num_heads = num_heads', head_dim = head_dim',
           W_gate = map (map (\<lambda>x. x * (2 / 100))) randn,
           gate_bias = replicate hidden_dim gate_init_bias \<rparr>)"

definition ncols :: "real list list \<Rightarrow> nat" where
  "ncols M = (if M = [] then 0 else length (hd M))"

definition np_dot_vec_mat :: "real list \<Rightarrow> real list list \<Rightarrow> error + real list" where
  \<comment> \<open>\<open>np.dot(v, M)\<close> of a 1-D and a 2-D array: ValueError unless \<open>M\<close> has \<open>len(v)\<close> rows\<close>
  "np_dot_vec_mat v M =
     (if length v = length M
      then Inr (map (\<lambda>j. sum_list (map2 (\<lambda>x row. x * row ! j) v M)) [0 ..< ncols M])
      else Inl ShapeMismatch)"

definition np_dot_vec_matT :: "real list \<Rightarrow> real list list \<Rightarrow> error + real list" where
  \<comment> \<open>\<open>np.dot(v, M.T)\<close>: ValueError unless the rows of \<open>M\<close> have the length of \<open>v\<close>\<close>
  "np_dot_vec_matT v M =
     (if \<forall>row \<in> set M. length row = length v then Inr (map (\<lambda>row. dot v row) M)
      else Inl ShapeMismatch)"

definition np_add :: "real list \<Rightarrow> real list \<Rightarrow> error + real list" where
  \<comment> \<open>elementwise sum with numpy broadcasting of a length-1 operand\<close>
  "np_add xs ys =
     (if length xs = length ys then Inr (map2 (+) xs ys)
      else if length ys = 1 then Inr (map (\<lambda>x. x + hd ys) xs)
      else if length xs = 1 then Inr (map (\<lambda>y. hd xs + y) ys)
      else Inl ShapeMismatch)"

definition np_stack :: "real list list \<Rightarrow> error + real list list" where
  \<comment> \<open>\<open>np.stack\<close>: ValueError for no array and for arrays of different shapes\<close>
  "np_stack vs =
     (if vs \<noteq> [] \<and> (\<forall>v \<in> set vs. length v = length (hd vs)) then Inr vs
      else Inl ShapeMismatch)"

definition np_resize :: "real list \<Rightarrow> nat \<Rightarrow> real list" where
  \<comment> \<open>\<open>np.resize\<close>: the array repeated up to the new size, zeros for an empty array\<close>
  "np_resize a n = (if a = [] then replicate n 0 else take n (concat (replicate n a)))"

definition np_mean :: "real list \<Rightarrow> real option" where
  \<comment> \<open>\<open>np.mean\<close>: the mean of no number is NaN (with a RuntimeWarning), here \<open>None\<close>\<close>
  "np_mean xs = (if xs = [] then None else Some (sum_list xs / real (length xs)))"

definition argsort_contract :: "(real list \<Rightarrow> nat list) \<Rightarrow> bool" where
  \<comment> \<open>what numpy documents of \<open>np.argsort\<close>: the indices of the array, each once, in
      an order that sorts it ascending; nothing on the order of equal keys\<close>
  "argsort_contract np_argsort =
     (\<forall>xs. distinct (np_argsort xs) \<and> set (np_argsort xs) = {..< length xs}
          \<and> sorted (map (\<lambda>i. xs ! i) (np_argsort xs)))"

definition argsort_insertion :: "real list \<Rightarrow> nat list" where
  \<comment> \<open>one routine that meets the contract, for the places where \<open>retrieve\<close> is
      evaluated: an insertion sort of the indices, which leaves equal keys in index order\<close>
  "argsort_insertion xs = sort_key (\<lambda>i. xs ! i) [0 ..< length xs]"

definition py_slice_to :: "int \<Rightarrow> 'a list \<Rightarrow> 'a list" where
  \<comment> \<open>the Python slice \<open>xs[:k]\<close>; a negative \<open>k\<close> counts from the end\<close>
  "py_slice_to k xs = (if 0 \<le> k then take (nat k) xs else take (length xs - nat (- k)) xs)"

definition softmax :: "real list \<Rightarrow> error + real list" where
  \<comment> \<open>\<open>_softmax\<close>; \<open>np.max\<close> of an empty array raises ValueError\<close>
  "softmax x =
     (if x = [] then Inl EmptyReduction
      else let exp_x = map (\<lambda>v. exp (v - Max (set x))) x
           in Inr (map (\<lambda>v. v / (sum_list exp_x + eps)) exp_x))"

definition sigmoid :: "real list \<Rightarrow> real list" where
  \<comment> \<open>\<open>_sigmoid\<close>, with \<open>np.clip(x, -500, 500)\<close>\<close>
  "sigmoid x = map (\<lambda>v. 1 / (1 + exp (- (max (-500) (min 500 v))))) x"

definition compute_gate :: "GatedContextRetriever \<Rightarrow> real list \<Rightarrow> error + real list" where
  \<comment> \<open>the two lines of \<open>compute_gated_attention\<close> that compute \<open>gate\<close>\<close>
  "compute_gate self query =
     bindE (np_dot_vec_mat query (W_gate self)) (\<lambda>qW.
     bindE (np_add qW (gate_bias self)) (\<lambda>gate_logits.
     Inr (sigmoid gate_logits)))"

definition compute_gated_attention ::
  "GatedContextRetriever \<Rightarrow> real list \<Rightarrow> real list list \<Rightarrow> real list list
     \<Rightarrow> error + (real list \<times> real list)"
where
  "compute_gated_attention self query keys values =
     (let d_k = length query
      in bindE (np_dot_vec_matT query keys) (\<lambda>qK.
      let scores = map (\<lambda>v. v / sqrt (real d_k + eps)) qK
      in bindE (softmax scores) (\<lambda>attention_weights.
      bindE (np_dot_vec_mat attention_weights values) (\<lambda>sdpa_output.
      bindE (compute_gate self query) (\<lambda>gate.
      bindE (if length gate \<ge> length sdpa_output
             then np_mul sdpa_output (take (length sdpa_output) gate)
             else np_mul sdpa_output (np_resize gate (length sdpa_output))) (\<lambda>gated_output.
      Inr (gated_output, gate)))))))"

definition final_scores_of ::
  "GatedContextRetriever \<Rightarrow> real list \<Rightarrow> ContextBlock list \<Rightarrow> error + real list"
where
  \<comment> \<open>the part of \<open>retrieve\<close> from \<open>np.stack\<close> to \<open>final_scores\<close>, for the query vector and
      the non-empty list \<open>valid_candidates\<close>; the slice of \<open>gates\<close> whose mean is taken is
      not empty there, so the mean is a number\<close>
  "final_scores_of self q_vec valid_candidates =
     bindE (np_stack (map (\<lambda>c. vector (the (embedding c))) valid_candidates)) (\<lambda>keys.
     let values = keys
     in bindE (compute_gated_attention self q_vec keys values) (\<lambda>(gated_out, gates).
     bindE (np_dot_vec_matT q_vec keys) (\<lambda>relevance.
     bindE (if length gates > 0
            then (case np_mean (take (length relevance) gates) of
                    Some m \<Rightarrow> Inr m
                  | None \<Rightarrow> Inl NotANumber)
            else Inr (1 / 2)) (\<lambda>mean_gate.
     Inr (map (\<lambda>x. x * mean_gate) relevance)))))"

definition retrieve ::
  "(real list \<Rightarrow> nat list) \<Rightarrow> GatedContextRetriever \<Rightarrow> Query \<Rightarrow> ContextBlock list \<Rightarrow> int
     \<Rightarrow> error + ContextBlock list"
where
  \<comment> \<open>\<open>GatedContextRetriever.retrieve\<close>. \<open>np_argsort\<close> is numpy's sorting routine, a
      parameter because numpy fixes no order among equal keys. The candidates returned
      are the input objects with the relevance score written; indexing a list out of its
      range raises IndexError\<close>
  "retrieve np_argsort self query candidates top_k =
     (if candidates = [] \<or> q_embedding query = None then Inr []
      else
        let q_vec = qvector (the (q_embedding query));
            valid_candidates = filter (\<lambda>c. embedding c \<noteq> None) candidates
        in if valid_candidates = [] then Inr []
           else bindE (final_scores_of self q_vec valid_candidates) (\<lambda>final_scores.
                let sorted_indices = py_slice_to top_k (rev (np_argsort final_scores))
                in if \<forall>idx \<in> set sorted_indices.
                        idx < length valid_candidates \<and> idx < length final_scores
                   then Inr (map (\<lambda>idx. (valid_candidates ! idx)
                                         \<lparr> relevance_score := Some (final_scores ! idx) \<rparr>)
                             sorted_indices)
                   else Inl IndexError))"

section \<open>Query pipeline\<close>

text \<open>
  The two entries of the dictionary \<open>decomposition_stats\<close> are the fields
  \<open>avg_relevance\<close> and \<open>avg_noise\<close> of the result.
\<close>

record QueryResult =
  result_query_id :: string
  contexts :: "ContextBlock list"
  total_candidates :: nat
  processing_time_ms :: real
  avg_relevance :: "real option"
  avg_noise :: "real option"

record QueryHandler =
  ysrn :: YSRNEngine
  retriever :: GatedContextRetriever

definition QueryEmbedding_from_numpy :: "real list \<Rightarrow> QueryEmbedding" where
  "QueryEmbedding_from_numpy arr = \<lparr> qvector = arr, qdimension = length arr \<rparr>"

definition score_or_0 :: "real option \<Rightarrow> real" where
  \<comment> \<open>the Python expression \<open>score or 0\<close>\<close>
  "score_or_0 score = (case score of None \<Rightarrow> 0 | Some x \<Rightarrow> x)"

definition sort_reverse :: "('a \<Rightarrow> real) \<Rightarrow> 'a list \<Rightarrow> 'a list" where
  \<comment> \<open>\<open>list.sort(key=..., reverse=True)\<close>: descending, equal keys in their original order\<close>
  "sort_reverse key xs = rev (sort_key key (rev xs))"

definition submit_query_with ::
  "(real list \<Rightarrow> bool) \<Rightarrow> (real list \<Rightarrow> nat list) \<Rightarrow> QueryHandler \<Rightarrow> string \<Rightarrow> string
     \<Rightarrow> string list option \<Rightarrow> real list \<Rightarrow> ContextBlock list \<Rightarrow> real \<Rightarrow> error + QueryResult"
where
  \<comment> \<open>\<open>QueryHandler.submit_query\<close> from the construction of the query to the stored result.
      The collaborators are parameters: \<open>query_id'\<close> is the fresh uuid, \<open>embedding'\<close> the
      answer of the encoder, \<open>candidates\<close> the answer of \<open>search_similar\<close> and \<open>elapsed\<close> the
      measured time\<close>
  "submit_query_with converged np_argsort self query_id' text constraints' embedding' candidates
       elapsed =
     (let query = \<lparr> query_id = query_id', query_text = text,
                     q_embedding = Some (QueryEmbedding_from_numpy embedding'),
                     constraints = (case constraints' of None \<Rightarrow> [] | Some cs \<Rightarrow> cs) \<rparr>
      in bindE (retrieve np_argsort (retriever self) query candidates 10) (\<lambda>results.
         bindE (batch_classify_with converged (ysrn self) results query) (\<lambda>classified.
         let classified' = sort_reverse (\<lambda>x. score_or_0 (relevance_score x)) classified
         in Inr \<lparr> result_query_id = query_id',
                  contexts = classified',
                  total_candidates = length candidates,
                  processing_time_ms = elapsed,
                  avg_relevance = np_mean (map (\<lambda>c. score_or_0 (relevance_score c)) classified'),
                  avg_noise = np_mean (map (\<lambda>c. score_or_0 (noise_score c)) classified') \<rparr>)))"

definition submit_query ::
  "(real list \<Rightarrow> nat list) \<Rightarrow> QueryHandler \<Rightarrow> string \<Rightarrow> string \<Rightarrow> string list option \<Rightarrow> real list
     \<Rightarrow> ContextBlock list \<Rightarrow> real \<Rightarrow> error + QueryResult"
where
  "submit_query = submit_query_with (\<lambda>_. True)"

definition mean_gate_of :: "nat \<Rightarrow> real list \<Rightarrow> real" where
  \<comment> \<open>closed form of \<open>mean_gate\<close> in \<open>retrieve\<close> for \<open>n\<close> valid candidates (lemma
      \<open>final_scores_of_eq\<close>); used in proofs only\<close>
  "mean_gate_of n gate =
     (if gate = [] then 1 / 2 else sum_list (take n gate) / real (min (length gate) n))"


section \<open>Auxiliary facts\<close>

lemma eps_pos: "0 < eps"
  by (simp add: eps_def)

lemma sum_squares_nonneg: "0 \<le> sum_list (map (\<lambda>x. x * x) (xs::real list))"
  by (induction xs) simp_all

lemma np_linalg_norm_nonneg: "0 \<le> np_linalg_norm xs"
  by (simp add: np_linalg_norm_def sum_squares_nonneg)

lemma accumulate_noise_single:
  "column U 0 = Inr u \<Longrightarrow> np_mul (map (\<lambda>x. a * x) u) v = Inr t \<Longrightarrow> np_iadd N t = Inr N'
   \<Longrightarrow> accumulate_noise U [a] [v] [0] N = Inr N'"
  by simp

lemma sum_squares_zero: "sum_list (map (\<lambda>x. x * x) xs) = 0 \<Longrightarrow> xs = replicate (length xs) (0::real)"
proof (induction xs)
  case Nil
  then show ?case by simp
next
  case (Cons a xs)
  have nn: "0 \<le> sum_list (map (\<lambda>x. x * x) xs)" by (rule sum_squares_nonneg)
  have "a * a + sum_list (map (\<lambda>x. x * x) xs) = 0" using Cons.prems by simp
  with nn have "a * a = 0" "sum_list (map (\<lambda>x. x * x) xs) = 0"
    by (smt (verit) zero_le_square)+
  then show ?case using Cons.IH by simp
qed

lemma norm_zero_replicate: "np_linalg_norm xs = 0 \<Longrightarrow> xs = replicate (length xs) 0"
  by (rule sum_squares_zero) (simp add: np_linalg_norm_def sum_squares_nonneg)

lemma map2_add_zeros: "length ys = n \<Longrightarrow> map2 (+) (replicate n (0::real)) ys = ys"
  by (induction ys arbitrary: n) auto

lemma accumulate_noise_svd:
  assumes "r \<noteq> []" and "np_linalg_svd r = (U, s, Vt)"
  shows "accumulate_noise U s Vt [0] (replicate (length r) 0) = Inr r"
proof -
  let ?s0 = "np_linalg_norm r"
  let ?u = "if ?s0 = 0 then 1 # replicate (length r - 1) 0 else map (\<lambda>x. x / ?s0) r"
  have U: "U = map (\<lambda>x. [x]) ?u" and s: "s = [?s0]" and Vt: "Vt = [[1]]"
    using assms by (simp_all add: np_linalg_svd_def Let_def)
  have col: "column U 0 = Inr ?u"
    by (simp add: U column_def comp_def)
  have scaled: "map (\<lambda>x. ?s0 * x) ?u = r"
  proof (cases "?s0 = 0")
    case True
    then have "r = replicate (length r) 0" by (rule norm_zero_replicate)
    then obtain n where "r = replicate (Suc n) 0" using assms(1) by (cases "length r") auto
    then show ?thesis using True by simp
  next
    case False
    then show ?thesis by (simp add: comp_def)
  qed
  have mul: "np_mul r [1] = Inr r"
    using assms(1) by (cases r) (auto simp: np_mul_def)
  have add: "np_iadd (replicate (length r) 0) r = Inr r"
    by (simp add: np_iadd_def map2_add_zeros)
  show ?thesis
    unfolding s Vt using col mul add
    by (intro accumulate_noise_single[where u = ?u and t = r]) (simp_all only: scaled)
qed

lemma accumulate_noise_fallback:
  "accumulate_noise [[1]] [a] [[1]] [0] (replicate n 0) = Inr (replicate n a)"
proof -
  have col: "column [[1]] 0 = Inr [1]" by (simp add: column_def)
  have mul: "np_mul [a] [1] = Inr [a]" by (simp add: np_mul_def)
  have add: "np_iadd (replicate n 0) [a] = Inr (replicate n a)"
    by (cases n) (auto simp: np_iadd_def map_replicate_const)
  show ?thesis
    by (rule accumulate_noise_single[OF col _ add]) (simp add: mul)
qed

lemma length_noise_of: "length (noise_of conv t r) = length r"
  by (simp add: noise_of_def)

lemma separate_noise_eq:
  "separate_noise conv e r =
     Inr (noise_of (conv r) (noise_threshold e) r,
          (if conv r \<and> r = [] then [] else [np_linalg_norm r]),
          (if (np_linalg_norm r)\<^sup>2 / ((np_linalg_norm r)\<^sup>2 + eps) > 1 - noise_threshold e
              \<and> (r \<noteq> [] \<or> \<not> conv r)
           then [0] else []))"
proof (cases "conv r \<and> r = []")
  case True
  then have "r = []" and "conv []" by auto
  then show ?thesis
    by (simp add: separate_noise_def np_linalg_svd_def np_cumsum_def bindE_def noise_of_def)
next
  case False
  show ?thesis
  proof (cases "conv r")
    case True
    with False have r: "r \<noteq> []" by simp
    obtain U s Vt where svd: "np_linalg_svd r = (U, s, Vt)" by (cases "np_linalg_svd r") auto
    have s: "s = [np_linalg_norm r]" using svd r by (auto simp: np_linalg_svd_def Let_def)
    have acc: "accumulate_noise U s Vt [0] (replicate (length r) 0) = Inr r"
      by (rule accumulate_noise_svd[OF r svd])
    show ?thesis using True r acc
      by (simp add: separate_noise_def svd s np_cumsum_def bindE_def noise_of_def Let_def)
  next
    case False
    then show ?thesis
      by (simp add: separate_noise_def np_cumsum_def bindE_def noise_of_def Let_def
                    accumulate_noise_fallback
               del: accumulate_noise.simps)
  qed
qed

lemma am_gm_step:
  fixes u v w :: real
  assumes "0 \<le> u" "0 \<le> v" "w\<^sup>2 \<le> u * v"
  shows "2 * w \<le> u + v"
proof -
  have "(2 * w)\<^sup>2 = 4 * w\<^sup>2" by (simp add: power2_eq_square)
  also have "\<dots> \<le> 4 * (u * v)" using assms(3) by simp
  also have "\<dots> \<le> (u + v)\<^sup>2"
  proof -
    have "0 \<le> (u - v)\<^sup>2" by simp
    then show ?thesis by (simp add: power2_eq_square algebra_simps)
  qed
  finally have "\<bar>2 * w\<bar> \<le> \<bar>u + v\<bar>" by (simp only: abs_le_square_iff)
  then show ?thesis using assms(1,2) by simp
qed

lemma cauchy_schwarz_sq:
  "(dot xs ys)\<^sup>2 \<le> sum_list (map (\<lambda>x. x * x) xs) * sum_list (map (\<lambda>x. x * x) ys)"
proof (induction xs arbitrary: ys)
  case Nil
  then show ?case by (simp add: dot_def)
next
  case (Cons a xs)
  show ?case
  proof (cases ys)
    case Nil
    then show ?thesis by (simp add: dot_def)
  next
    case (Cons b zs)
    let ?D = "dot xs zs"
    let ?X = "sum_list (map (\<lambda>x. x * x) xs)"
    let ?Y = "sum_list (map (\<lambda>x. x * x) zs)"
    have X: "0 \<le> ?X" and Y: "0 \<le> ?Y" by (rule sum_squares_nonneg)+
    have IH: "?D\<^sup>2 \<le> ?X * ?Y" by (rule Cons.IH)
    have "(a * b * ?D)\<^sup>2 = (a * a) * (b * b) * ?D\<^sup>2"
      by (simp add: power2_eq_square)
    also have "\<dots> \<le> (a * a) * (b * b) * (?X * ?Y)"
      by (intro mult_left_mono IH) simp
    also have "\<dots> = (a * a * ?Y) * (b * b * ?X)" by simp
    finally have "2 * (a * b * ?D) \<le> a * a * ?Y + b * b * ?X"
      using X Y by (intro am_gm_step) simp_all
    then have "(a * b + ?D)\<^sup>2 \<le> (a * a + ?X) * (b * b + ?Y)"
      using IH by (simp add: power2_eq_square algebra_simps)
    then show ?thesis using Cons by (simp add: dot_def)
  qed
qed

lemma np_linalg_norm_sq: "(np_linalg_norm xs)\<^sup>2 = sum_list (map (\<lambda>x. x * x) xs)"
  by (simp add: np_linalg_norm_def sum_squares_nonneg)

lemma cauchy_schwarz: "\<bar>dot xs ys\<bar> \<le> np_linalg_norm xs * np_linalg_norm ys"
proof -
  have "(dot xs ys)\<^sup>2 \<le> (np_linalg_norm xs * np_linalg_norm ys)\<^sup>2"
    using cauchy_schwarz_sq[of xs ys] by (simp add: power_mult_distrib np_linalg_norm_sq)
  then have "\<bar>dot xs ys\<bar> \<le> \<bar>np_linalg_norm xs * np_linalg_norm ys\<bar>"
    by (simp only: abs_le_square_iff)
  then show ?thesis by (simp add: np_linalg_norm_nonneg abs_mult)
qed

lemma sum_squares_add:
  "length xs = length ys \<Longrightarrow>
   sum_list (map (\<lambda>x. x * x) (map2 (+) xs ys)) =
     sum_list (map (\<lambda>x. x * x) xs) + 2 * dot xs ys + sum_list (map (\<lambda>x. x * (x::real)) ys)"
proof (induction xs ys rule: list_induct2)
  case Nil
  then show ?case by (simp add: dot_def)
next
  case (Cons x xs y ys)
  then show ?case by (simp add: dot_def algebra_simps)
qed

lemma norm_triangle:
  assumes "length xs = length ys"
  shows "np_linalg_norm (map2 (+) xs ys) \<le> np_linalg_norm xs + np_linalg_norm ys"
proof -
  have "(np_linalg_norm (map2 (+) xs ys))\<^sup>2
        = (np_linalg_norm xs)\<^sup>2 + 2 * dot xs ys + (np_linalg_norm ys)\<^sup>2"
    by (simp only: np_linalg_norm_sq sum_squares_add[OF assms])
  also have "\<dots> \<le> (np_linalg_norm xs)\<^sup>2 + 2 * (np_linalg_norm xs * np_linalg_norm ys)
                    + (np_linalg_norm ys)\<^sup>2"
    using cauchy_schwarz[of xs ys] by simp
  also have "\<dots> = (np_linalg_norm xs + np_linalg_norm ys)\<^sup>2"
    by (simp add: power2_eq_square algebra_simps)
  finally have "\<bar>np_linalg_norm (map2 (+) xs ys)\<bar> \<le> \<bar>np_linalg_norm xs + np_linalg_norm ys\<bar>"
    by (simp only: abs_le_square_iff)
  then show ?thesis by (simp add: np_linalg_norm_nonneg)
qed

lemma norm_scale:
  assumes "0 < d"
  shows "np_linalg_norm (map (\<lambda>x. x / d) xs) = np_linalg_norm xs / d"
proof -
  have "sum_list (map (\<lambda>x. x * x) (map (\<lambda>x. x / d) xs)) = sum_list (map (\<lambda>x. x * x) xs) / (d * d)"
    by (induction xs) (simp_all add: add_divide_distrib)
  then show ?thesis using assms
    by (simp add: np_linalg_norm_def real_sqrt_divide real_sqrt_mult)
qed

lemma dot_scale:
  "dot (map (\<lambda>x. x / a) xs) (map (\<lambda>x. x / b) ys) = dot xs ys / (a * b)"
proof (induction xs arbitrary: ys)
  case Nil
  then show ?case by (simp add: dot_def)
next
  case (Cons x xs)
  then show ?case by (cases ys) (simp_all add: dot_def add_divide_distrib)
qed

lemma unit_dot_bound:
  "\<bar>dot (map (\<lambda>x. x / (np_linalg_norm c + eps)) c) (map (\<lambda>x. x / (np_linalg_norm q + eps)) q)\<bar> \<le> 1"
proof -
  let ?a = "np_linalg_norm c" and ?b = "np_linalg_norm q"
  have a: "0 \<le> ?a" and b: "0 \<le> ?b" by (rule np_linalg_norm_nonneg)+
  have pos: "0 < (?a + eps) * (?b + eps)" using a b eps_pos by (intro mult_pos_pos) simp_all
  have "\<bar>dot c q\<bar> \<le> ?a * ?b" by (rule cauchy_schwarz)
  also have "\<dots> \<le> (?a + eps) * (?b + eps)"
    using a b eps_pos by (intro mult_mono) simp_all
  finally have "\<bar>dot c q\<bar> / ((?a + eps) * (?b + eps)) \<le> 1" using pos by simp
  moreover have "\<bar>(?a + eps) * (?b + eps)\<bar> = (?a + eps) * (?b + eps)" using pos by simp
  ultimately show ?thesis by (simp only: dot_scale abs_divide)
qed

lemma decompose_with_unfold:
  fixes c q :: "real list" and conv :: "real list \<Rightarrow> bool" and e :: YSRNEngine
  defines "Y \<equiv> map (\<lambda>x. x / (np_linalg_norm c + eps)) c"
  defines "qn \<equiv> map (\<lambda>x. x / (np_linalg_norm q + eps)) q"
  defines "R0 \<equiv> map (\<lambda>x. dot Y qn * x) qn"
  defines "r \<equiv> np_sub Y R0"
  defines "N \<equiv> noise_of (conv r) (noise_threshold e) r"
  defines "S \<equiv> np_sub r N"
  defines "sv \<equiv> (if conv r \<and> r = [] then [] else [np_linalg_norm r])"
  defines "ni \<equiv> (if (np_linalg_norm r)\<^sup>2 / ((np_linalg_norm r)\<^sup>2 + eps) > 1 - noise_threshold e
                     \<and> (r \<noteq> [] \<or> \<not> conv r) then [0::nat] else [])"
  shows "decompose_with conv e c q =
     (if length c = length q then
        bindE (case W_relevance e of Some W \<Rightarrow> matvec W R0 | None \<Rightarrow> Inr R0) (\<lambda>R.
          Inr \<lparr> dr_Y = Y, dr_R = R, dr_S = S, dr_N = N,
                 relevance_ratio = np_linalg_norm R /
                    (np_linalg_norm R + np_linalg_norm S + np_linalg_norm N + eps),
                 superfluous_ratio = np_linalg_norm S /
                    (np_linalg_norm R + np_linalg_norm S + np_linalg_norm N + eps),
                 noise_ratio = np_linalg_norm N /
                    (np_linalg_norm R + np_linalg_norm S + np_linalg_norm N + eps),
                 signal_quality = np_linalg_norm R / (np_linalg_norm S + np_linalg_norm N + eps),
                 confidence = \<bar>dot Y qn\<bar>,
                 r_components = 1,
                 s_components = max 0 (int (length sv) - int (length ni) - 1),
                 n_components = int (length ni) \<rparr>)
      else Inl ShapeMismatch)"
proof (cases "length c = length q")
  case False
  then show ?thesis by (simp add: decompose_with_def Let_def np_dot_def bindE_def)
next
  case True
  then have d: "np_dot Y qn = Inr (dot Y qn)" by (simp add: np_dot_def Y_def qn_def)
  have sn: "separate_noise conv e r = Inr (N, sv, ni)"
    by (simp add: separate_noise_eq N_def sv_def ni_def)
  show ?thesis
    unfolding decompose_with_def Let_def
    unfolding Y_def[symmetric] qn_def[symmetric]
    unfolding d bindE_def sum.case
    unfolding R0_def[symmetric] r_def[symmetric] sn S_def
    by (simp add: True)
qed

lemma decompose_with_no_W:
  fixes c q :: "real list" and conv :: "real list \<Rightarrow> bool" and e :: YSRNEngine
  defines "Y \<equiv> map (\<lambda>x. x / (np_linalg_norm c + eps)) c"
  defines "qn \<equiv> map (\<lambda>x. x / (np_linalg_norm q + eps)) q"
  defines "R \<equiv> map (\<lambda>x. dot Y qn * x) qn"
  defines "N \<equiv> noise_of (conv (np_sub Y R)) (noise_threshold e) (np_sub Y R)"
  defines "S \<equiv> np_sub (np_sub Y R) N"
  assumes len: "length c = length q" and W: "W_relevance e = None"
  shows "\<exists>k m. decompose_with conv e c q =
          Inr \<lparr> dr_Y = Y, dr_R = R, dr_S = S, dr_N = N,
                 relevance_ratio = np_linalg_norm R /
                    (np_linalg_norm R + np_linalg_norm S + np_linalg_norm N + eps),
                 superfluous_ratio = np_linalg_norm S /
                    (np_linalg_norm R + np_linalg_norm S + np_linalg_norm N + eps),
                 noise_ratio = np_linalg_norm N /
                    (np_linalg_norm R + np_linalg_norm S + np_linalg_norm N + eps),
                 signal_quality = np_linalg_norm R / (np_linalg_norm S + np_linalg_norm N + eps),
                 confidence = \<bar>dot Y qn\<bar>,
                 r_components = 1, s_components = k, n_components = m \<rparr>"
  unfolding decompose_with_unfold Y_def qn_def R_def N_def S_def
  by (simp add: len W bindE_def)

lemma decompose_with_Inr:
  assumes "decompose_with conv e c q = Inr res"
  shows "length c = length q"
    and "confidence res = \<bar>dot (map (\<lambda>x. x / (np_linalg_norm c + eps)) c)
                               (map (\<lambda>x. x / (np_linalg_norm q + eps)) q)\<bar>"
proof -
  show len: "length c = length q"
    using assms unfolding decompose_with_unfold by (simp split: if_splits)
  show "confidence res = \<bar>dot (map (\<lambda>x. x / (np_linalg_norm c + eps)) c)
                               (map (\<lambda>x. x / (np_linalg_norm q + eps)) q)\<bar>"
    using assms unfolding decompose_with_unfold bindE_def
    by (auto simp: len split: sum.splits)
qed

lemma rsn_sum:
  "length R = length Y \<Longrightarrow> length N = length Y \<Longrightarrow>
   map2 (+) (map2 (+) R (np_sub (np_sub Y R) N)) N = (Y :: real list)"
proof (induction Y arbitrary: R N)
  case Nil
  then show ?case by (simp add: np_sub_def)
next
  case (Cons y Y)
  then obtain r R' n N' where "R = r # R'" "N = n # N'"
    by (cases R; cases N) auto
  with Cons show ?case by (simp add: np_sub_def)
qed

lemma norm_three:
  assumes "length R = length Y" "length N = length Y"
  shows "np_linalg_norm Y \<le> np_linalg_norm R + np_linalg_norm (np_sub (np_sub Y R) N) + np_linalg_norm N"
proof -
  let ?S = "np_sub (np_sub Y R) N"
  have lS: "length ?S = length Y" using assms by (simp add: np_sub_def)
  have "np_linalg_norm Y = np_linalg_norm (map2 (+) (map2 (+) R ?S) N)"
    using rsn_sum[OF assms] by simp
  also have "\<dots> \<le> np_linalg_norm (map2 (+) R ?S) + np_linalg_norm N"
    using assms lS by (intro norm_triangle) simp
  also have "\<dots> \<le> np_linalg_norm R + np_linalg_norm ?S + np_linalg_norm N"
    using norm_triangle[of R ?S] assms lS by simp
  finally show ?thesis .
qed

lemma init_no_W: "W_relevance (YSRNEngine_init a b n) = None"
  by (simp add: YSRNEngine_init_def)

lemma norm_replicate_zero: "np_linalg_norm (replicate n 0) = 0"
  by (simp add: np_linalg_norm_def sum_list_replicate)

lemma np_sub_self: "np_sub xs xs = replicate (length xs) 0"
  by (induction xs) (simp_all add: np_sub_def)

lemma norm_nil: "np_linalg_norm [] = 0"
  by (simp add: np_linalg_norm_def)

lemma energy_threshold:
  fixes t E :: real
  assumes "0 < t" and "0 \<le> E"
  shows "(1 - t < E / (E + eps)) = ((1 - t) / t * eps < E)"
proof -
  have pos: "0 < E + eps" using assms(2) eps_pos by simp
  have "(1 - t < E / (E + eps)) = ((1 - t) * (E + eps) < E)"
    using pos by (simp add: pos_less_divide_eq)
  also have "\<dots> = ((1 - t) * eps < t * E)" by (simp add: algebra_simps)
  also have "\<dots> = ((1 - t) / t * eps < E)"
    using assms(1) by (simp add: field_simps)
  finally show ?thesis .
qed

lemma noise_of_selected:
  "1 - t < (np_linalg_norm r)\<^sup>2 / ((np_linalg_norm r)\<^sup>2 + eps) \<Longrightarrow> r \<noteq> [] \<Longrightarrow> noise_of True t r = r"
  by (simp add: noise_of_def)

lemma norm_two: "np_linalg_norm [x, y] = sqrt (x * x + y * y)"
  by (simp add: np_linalg_norm_def)

lemma decompose_with_not_missing: "decompose_with conv e c q \<noteq> Inl MissingEmbedding"
  unfolding decompose_with_unfold bindE_def
  by (auto simp: matvec_def split: option.splits sum.splits)

lemma norm_zero2: "np_linalg_norm [0, 0] = 0"
  by (simp add: np_linalg_norm_def)

lemma norm_one_zero: "np_linalg_norm [1, 0] = 1"
  by (simp add: np_linalg_norm_def)

section \<open>Auxiliary facts about the retriever and the pipeline\<close>

lemma length_np_resize: "length (np_resize a n) = n"
proof (cases "a = []")
  case True
  then show ?thesis by (simp add: np_resize_def)
next
  case False
  then have "1 \<le> length a" by (cases a) simp_all
  then have "n * 1 \<le> n * length a" by (rule mult_le_mono2)
  moreover have "length (concat (replicate n a)) = n * length a"
    by (induction n) simp_all
  ultimately show ?thesis using False by (simp add: np_resize_def)
qed

lemma np_mul_same_length: "length xs = length ys \<Longrightarrow> \<exists>zs. np_mul xs ys = Inr zs"
  by (simp add: np_mul_def)

lemma compute_gate_ok:
  assumes "length (W_gate self) = length q" and "length (gate_bias self) = ncols (W_gate self)"
  shows "\<exists>gate. compute_gate self q = Inr gate"
  using assms by (simp add: compute_gate_def np_dot_vec_mat_def np_add_def bindE_def)

lemma gated_attention_ok:
  assumes W: "length (W_gate self) = length q"
    and b: "length (gate_bias self) = ncols (W_gate self)"
    and keys: "keys \<noteq> []" "\<forall>row \<in> set keys. length row = length q"
    and gate: "compute_gate self q = Inr gate"
  shows "\<exists>out. compute_gated_attention self q keys keys = Inr (out, gate)"
proof -
  let ?scores = "map (\<lambda>v. v / sqrt (real (length q) + eps)) (map (\<lambda>row. dot q row) keys)"
  have 1: "np_dot_vec_matT q keys = Inr (map (\<lambda>row. dot q row) keys)"
    using keys(2) by (simp add: np_dot_vec_matT_def)
  obtain w where 2: "softmax ?scores = Inr w" and lw: "length w = length keys"
    using keys(1) by (simp add: softmax_def Let_def)
  obtain sdpa where 3: "np_dot_vec_mat w keys = Inr sdpa"
    using lw by (simp add: np_dot_vec_mat_def)
  have len: "length (if length gate \<ge> length sdpa then take (length sdpa) gate
                     else np_resize gate (length sdpa)) = length sdpa"
    by (simp add: length_np_resize)
  have "\<exists>out. (if length gate \<ge> length sdpa
             then np_mul sdpa (take (length sdpa) gate)
             else np_mul sdpa (np_resize gate (length sdpa))) = Inr out"
  proof (cases "length gate \<ge> length sdpa")
    case True
    then show ?thesis using np_mul_same_length[of sdpa "take (length sdpa) gate"] by simp
  next
    case False
    then show ?thesis
      using np_mul_same_length[of sdpa "np_resize gate (length sdpa)"]
      by (simp add: length_np_resize)
  qed
  then obtain out where 4: "(if length gate \<ge> length sdpa
             then np_mul sdpa (take (length sdpa) gate)
             else np_mul sdpa (np_resize gate (length sdpa))) = Inr out"
    by blast
  show ?thesis
    unfolding compute_gated_attention_def Let_def 1 bindE_def sum.case 2 3 gate 4
    by simp
qed

lemma final_scores_of_eq:
  assumes W: "length (W_gate self) = length q"
    and b: "length (gate_bias self) = ncols (W_gate self)"
    and valid: "valid \<noteq> []" "\<forall>c \<in> set valid. length (vector (the (embedding c))) = length q"
    and gate: "compute_gate self q = Inr gate"
  shows "final_scores_of self q valid =
           Inr (map (\<lambda>c. dot q (vector (the (embedding c))) * mean_gate_of (length valid) gate) valid)"
proof -
  let ?keys = "map (\<lambda>c. vector (the (embedding c))) valid"
  have k1: "?keys \<noteq> []" using valid(1) by simp
  have k2: "\<forall>row \<in> set ?keys. length row = length q" using valid(2) by simp
  have hd: "length (hd ?keys) = length q" using k1 k2 by (cases valid) simp_all
  have 1: "np_stack ?keys = Inr ?keys"
    unfolding np_stack_def using k1 k2 hd by simp
  obtain out where 2: "compute_gated_attention self q ?keys ?keys = Inr (out, gate)"
    using gated_attention_ok[OF W b k1 k2 gate] by blast
  have 3: "np_dot_vec_matT q ?keys = Inr (map (\<lambda>row. dot q row) ?keys)"
    using k2 unfolding np_dot_vec_matT_def by simp
  have 4: "(if length gate > 0
            then (case np_mean (take (length (map (\<lambda>row. dot q row) ?keys)) gate) of
                    Some m \<Rightarrow> Inr m
                  | None \<Rightarrow> Inl NotANumber)
            else Inr (1 / 2)) = Inr (mean_gate_of (length valid) gate)"
    using valid(1) by (cases gate) (simp_all add: np_mean_def mean_gate_of_def)
  show ?thesis
    unfolding final_scores_of_def Let_def 1 bindE_def sum.case 2 prod.case 3 4
    by (simp add: comp_def)
qed

lemma batch_classify_scores:
  "batch_classify_with conv e cs query = Inr cls \<Longrightarrow>
   \<forall>ctx \<in> set cls. relevance_score ctx \<noteq> None \<and> superfluous_score ctx \<noteq> None \<and> noise_score ctx \<noteq> None"
proof (induction cs arbitrary: cls)
  case Nil
  then show ?case by simp
next
  case (Cons c cs)
  from Cons.prems obtain c' cs' where c': "classify_context_with conv e c query = Inr c'"
    and cs': "batch_classify_with conv e cs query = Inr cs'" and cls: "cls = c' # cs'"
    by (auto split: sum.splits)
  from c' have "relevance_score c' \<noteq> None \<and> superfluous_score c' \<noteq> None \<and> noise_score c' \<noteq> None"
    by (auto simp: classify_context_with_def bindE_def split: option.splits sum.splits)
  with Cons.IH[OF cs'] cls show ?case by simp
qed

lemma classify_context_ok:
  assumes "embedding c = Some ce" "q_embedding query = Some qe"
    "length (vector ce) = length (qvector qe)" "W_relevance e = None"
  shows "\<exists>c'. classify_context_with conv e c query = Inr c'"
proof -
  obtain res where "decompose_with conv e (vector ce) (qvector qe) = Inr res"
    using decompose_with_no_W[OF assms(3,4), of conv] by blast
  then show ?thesis using assms(1,2) by (simp add: classify_context_with_def bindE_def)
qed

lemma batch_classify_ok:
  assumes "q_embedding query = Some qe" "W_relevance e = None"
    and "\<forall>c \<in> set cs. \<exists>ce. embedding c = Some ce \<and> length (vector ce) = length (qvector qe)"
  shows "\<exists>cls. batch_classify_with conv e cs query = Inr cls"
  using assms(3)
proof (induction cs)
  case Nil
  then show ?case by simp
next
  case (Cons c cs)
  then obtain ce where "embedding c = Some ce" "length (vector ce) = length (qvector qe)" by auto
  then obtain c' where "classify_context_with conv e c query = Inr c'"
    using classify_context_ok[OF _ assms(1) _ assms(2)] by blast
  moreover obtain cls where "batch_classify_with conv e cs query = Inr cls"
    using Cons by auto
  ultimately show ?case by simp
qed

lemma compute_gate_example:
  "compute_gate (GatedContextRetriever_init 1 2 (-2) [[50, 0], [0, 0]]) [2, 0]
     = Inr [1 / 2, 1 / (1 + exp 2)]"
  by (simp add: compute_gate_def GatedContextRetriever_init_def np_dot_vec_mat_def ncols_def
        np_add_def bindE_def sigmoid_def upt_rec numeral_2_eq_2)

lemma compute_gate_unit:
  "compute_gate (GatedContextRetriever_init 1 1 0 [[0]]) [1] = Inr [1 / 2]"
  by (simp add: compute_gate_def GatedContextRetriever_init_def np_dot_vec_mat_def ncols_def
        np_add_def bindE_def sigmoid_def)

lemma unit_retriever_shape:
  "length (W_gate (GatedContextRetriever_init 1 1 0 [[0]])) = length [1::real]"
  "length (gate_bias (GatedContextRetriever_init 1 1 0 [[0]]))
     = ncols (W_gate (GatedContextRetriever_init 1 1 0 [[0]]))"
  by (simp_all add: GatedContextRetriever_init_def ncols_def)

lemma final_scores_of_length:
  assumes "final_scores_of self q valid = Inr fs"
  shows "length fs = length valid"
proof -
  from assms obtain keys relevance m where
        "np_stack (map (\<lambda>c. vector (the (embedding c))) valid) = Inr keys"
    and "np_dot_vec_matT q keys = Inr relevance"
    and "fs = map (\<lambda>x. x * m) relevance"
    unfolding final_scores_of_def Let_def bindE_def
    by (auto split: sum.splits prod.splits)
  moreover from this have "keys = map (\<lambda>c. vector (the (embedding c))) valid"
    by (auto simp: np_stack_def split: if_splits)
  moreover from calculation have "length relevance = length keys"
    by (auto simp: np_dot_vec_matT_def split: if_splits)
  ultimately show ?thesis by simp
qed

lemma set_sort_reverse: "set (sort_reverse key xs) = set xs"
  by (simp add: sort_reverse_def)


lemma argsort_insertion_contract: "argsort_contract argsort_insertion"
  unfolding argsort_contract_def argsort_insertion_def
  by (auto simp: sorted_sort_key)

lemma top_indices:
  fixes fs :: "real list" and k :: int
  assumes c: "argsort_contract np_argsort"
  defines "idxs \<equiv> py_slice_to k (rev (np_argsort fs))"
  shows "distinct idxs" and "\<forall>i \<in> set idxs. i < length fs"
    and "sorted_wrt (\<lambda>i j. fs ! i \<ge> fs ! j) idxs"
    and "0 \<le> k \<Longrightarrow> k \<le> int (length fs) \<Longrightarrow> length idxs = nat k"
proof -
  have d: "distinct (np_argsort fs)" and s: "set (np_argsort fs) = {..<length fs}"
    and o: "sorted (map (\<lambda>i. fs ! i) (np_argsort fs))"
    using c unfolding argsort_contract_def by blast+
  have l: "length (np_argsort fs) = length fs"
    using distinct_card[OF d] s by simp
  have o': "sorted_wrt (\<lambda>i j. fs ! i \<ge> fs ! j) (rev (np_argsort fs))"
    using o by (simp add: sorted_map sorted_wrt_rev)
  obtain m where idxs: "idxs = take m (rev (np_argsort fs))"
    unfolding idxs_def py_slice_to_def by (cases "0 \<le> k") auto
  show "distinct idxs" using d by (simp add: idxs)
  show "\<forall>i \<in> set idxs. i < length fs"
    using s set_take_subset[of m "rev (np_argsort fs)"] by (auto simp: idxs)
  show "sorted_wrt (\<lambda>i j. fs ! i \<ge> fs ! j) idxs"
    using o' by (simp add: idxs sorted_wrt_take)
  show "0 \<le> k \<Longrightarrow> k \<le> int (length fs) \<Longrightarrow> length idxs = nat k"
    by (simp add: idxs_def py_slice_to_def l)
qed

lemma retrieve_unfold:
  fixes candidates :: "ContextBlock list"
  defines "valid \<equiv> filter (\<lambda>c. embedding c \<noteq> None) candidates"
  shows "retrieve np_argsort self query candidates top_k =
     (if candidates = [] \<or> q_embedding query = None \<or> valid = [] then Inr []
      else bindE (final_scores_of self (qvector (the (q_embedding query))) valid) (\<lambda>final_scores.
             if \<forall>idx \<in> set (py_slice_to top_k (rev (np_argsort final_scores))).
                   idx < length valid \<and> idx < length final_scores
             then Inr (map (\<lambda>idx. (valid ! idx) \<lparr> relevance_score := Some (final_scores ! idx) \<rparr>)
                        (py_slice_to top_k (rev (np_argsort final_scores))))
             else Inl IndexError))"
  unfolding retrieve_def Let_def valid_def by auto

lemma retrieve_eq:
  assumes q: "q_embedding query = Some qe"
    and dims: "\<forall>c \<in> set candidates. \<forall>ce. embedding c = Some ce \<longrightarrow> length (vector ce) = length (qvector qe)"
    and W: "length (W_gate self) = length (qvector qe)"
    and b: "length (gate_bias self) = ncols (W_gate self)"
    and c: "argsort_contract np_argsort"
  defines "valid \<equiv> filter (\<lambda>c. embedding c \<noteq> None) candidates"
  shows "\<exists>gate fs. compute_gate self (qvector qe) = Inr gate
           \<and> fs = map (\<lambda>c. dot (qvector qe) (vector (the (embedding c))) * mean_gate_of (length valid) gate) valid
           \<and> (valid \<noteq> [] \<longrightarrow> final_scores_of self (qvector qe) valid = Inr fs)
           \<and> retrieve np_argsort self query candidates top_k =
               Inr (map (\<lambda>idx. (valid ! idx) \<lparr> relevance_score := Some (fs ! idx) \<rparr>)
                      (py_slice_to top_k (rev (np_argsort fs))))"
proof -
  obtain gate where gate: "compute_gate self (qvector qe) = Inr gate"
    using compute_gate_ok[OF W b] by blast
  define fs where "fs = map (\<lambda>c. dot (qvector qe) (vector (the (embedding c))) * mean_gate_of (length valid) gate) valid"
  have lfs: "length fs = length valid" by (simp add: fs_def)
  have v2: "\<forall>c \<in> set valid. length (vector (the (embedding c))) = length (qvector qe)"
    using dims by (auto simp: valid_def)
  have F: "final_scores_of self (qvector qe) valid = Inr fs" if "valid \<noteq> []"
    unfolding fs_def using final_scores_of_eq[OF W b that v2 gate] .
  have rng: "\<forall>idx \<in> set (py_slice_to top_k (rev (np_argsort fs))). idx < length valid \<and> idx < length fs"
    using top_indices(2)[OF c, of top_k fs] lfs by simp
  have R: "retrieve np_argsort self query candidates top_k =
               Inr (map (\<lambda>idx. (valid ! idx) \<lparr> relevance_score := Some (fs ! idx) \<rparr>)
                      (py_slice_to top_k (rev (np_argsort fs))))"
  proof (cases "valid = []")
    case True
    then have "fs = []" by (simp add: fs_def)
    then have "py_slice_to top_k (rev (np_argsort fs)) = []"
      using rng by (cases "py_slice_to top_k (rev (np_argsort fs))") auto
    moreover have "retrieve np_argsort self query candidates top_k = Inr []"
      using True unfolding retrieve_unfold valid_def[symmetric] by simp
    ultimately show ?thesis by simp
  next
    case False
    then have "candidates \<noteq> []" by (auto simp: valid_def)
    then show ?thesis
      unfolding retrieve_unfold valid_def[symmetric]
      using rng by (simp add: q False F bindE_def)
  qed
  show ?thesis using gate F R fs_def by blast
qed

lemma retrieve_Inr:
  fixes candidates :: "ContextBlock list"
  defines "valid \<equiv> filter (\<lambda>c. embedding c \<noteq> None) candidates"
  assumes "retrieve np_argsort self query candidates top_k = Inr results"
  shows "\<forall>ctx \<in> set results. \<exists>final_scores idx.
           final_scores_of self (qvector (the (q_embedding query))) valid = Inr final_scores
         \<and> idx < length valid
         \<and> ctx = (valid ! idx) \<lparr> relevance_score := Some (final_scores ! idx) \<rparr>"
proof (cases "candidates = [] \<or> q_embedding query = None \<or> valid = []")
  case True
  then have "results = []"
    using assms(2) unfolding retrieve_unfold valid_def[symmetric] by simp
  then show ?thesis by simp
next
  case False
  with assms(2) obtain fs where
        F: "final_scores_of self (qvector (the (q_embedding query))) valid = Inr fs"
    and rng: "\<forall>idx \<in> set (py_slice_to top_k (rev (np_argsort fs))). idx < length valid \<and> idx < length fs"
    and res: "results = map (\<lambda>idx. (valid ! idx) \<lparr> relevance_score := Some (fs ! idx) \<rparr>)
                          (py_slice_to top_k (rev (np_argsort fs)))"
    unfolding retrieve_unfold valid_def[symmetric] bindE_def
    by (auto split: sum.splits if_splits)
  show ?thesis
  proof
    fix ctx assume "ctx \<in> set results"
    then obtain i where "i \<in> set (py_slice_to top_k (rev (np_argsort fs)))"
      and "ctx = (valid ! i) \<lparr> relevance_score := Some (fs ! i) \<rparr>"
      unfolding res by auto
    with rng F show "\<exists>final_scores idx.
           final_scores_of self (qvector (the (q_embedding query))) valid = Inr final_scores
         \<and> idx < length valid
         \<and> ctx = (valid ! idx) \<lparr> relevance_score := Some (final_scores ! idx) \<rparr>"
      by blast
  qed
qed

lemma retrieve_embeddings:
  assumes "retrieve np_argsort self query candidates top_k = Inr results"
  shows "\<forall>ctx \<in> set results. \<exists>orig \<in> set candidates. embedding orig \<noteq> None
           \<and> embedding ctx = embedding orig"
proof
  fix ctx assume "ctx \<in> set results"
  then obtain fs idx where
        i: "idx < length (filter (\<lambda>c. embedding c \<noteq> None) candidates)"
    and ctx: "ctx = (filter (\<lambda>c. embedding c \<noteq> None) candidates ! idx) \<lparr> relevance_score := Some (fs ! idx) \<rparr>"
    using retrieve_Inr[OF assms] by blast
  have "filter (\<lambda>c. embedding c \<noteq> None) candidates ! idx
          \<in> set (filter (\<lambda>c. embedding c \<noteq> None) candidates)"
    using i by (rule nth_mem)
  then show "\<exists>orig \<in> set candidates. embedding orig \<noteq> None \<and> embedding ctx = embedding orig"
    unfolding ctx by (intro bexI[of _ "filter (\<lambda>c. embedding c \<noteq> None) candidates ! idx"]) auto
qed

lemma submit_query_Inr:
  assumes "submit_query_with conv np_argsort h qid text cons emb pool elapsed = Inr result"
  shows "\<exists>results classified.
           retrieve np_argsort (retriever h)
             \<lparr> query_id = qid, query_text = text,
               q_embedding = Some (QueryEmbedding_from_numpy emb),
               constraints = (case cons of None \<Rightarrow> [] | Some cs \<Rightarrow> cs) \<rparr> pool 10
             = Inr results
         \<and> batch_classify_with conv (ysrn h) results
             \<lparr> query_id = qid, query_text = text,
               q_embedding = Some (QueryEmbedding_from_numpy emb),
               constraints = (case cons of None \<Rightarrow> [] | Some cs \<Rightarrow> cs) \<rparr>
             = Inr classified
         \<and> contexts result = sort_reverse (\<lambda>x. score_or_0 (relevance_score x)) classified
         \<and> avg_relevance result = np_mean (map (\<lambda>c. score_or_0 (relevance_score c)) (contexts result))
         \<and> avg_noise result = np_mean (map (\<lambda>c. score_or_0 (noise_score c)) (contexts result))"
  using assms unfolding submit_query_with_def Let_def bindE_def
  by (auto split: sum.splits)

lemma submit_query_ok:
  assumes dims: "\<forall>c \<in> set pool. \<forall>ce. embedding c = Some ce \<longrightarrow> length (vector ce) = length emb"
    and W: "length (W_gate (retriever h)) = length emb"
    and b: "length (gate_bias (retriever h)) = ncols (W_gate (retriever h))"
    and e: "W_relevance (ysrn h) = None"
    and c: "argsort_contract np_argsort"
  shows "\<exists>result. submit_query_with conv np_argsort h qid text cons emb pool elapsed = Inr result"
proof -
  let ?qe = "QueryEmbedding_from_numpy emb"
  let ?q = "\<lparr> query_id = qid, query_text = text, q_embedding = Some ?qe,
              constraints = (case cons of None \<Rightarrow> [] | Some cs \<Rightarrow> cs) \<rparr>"
  have qv: "qvector ?qe = emb" by (simp add: QueryEmbedding_from_numpy_def)
  have q: "q_embedding ?q = Some ?qe" by simp
  have dims': "\<forall>c \<in> set pool. \<forall>ce. embedding c = Some ce \<longrightarrow> length (vector ce) = length (qvector ?qe)"
    using dims by (simp add: qv)
  have W': "length (W_gate (retriever h)) = length (qvector ?qe)" using W by (simp add: qv)
  obtain results where R: "retrieve np_argsort (retriever h) ?q pool 10 = Inr results"
    using retrieve_eq[OF q dims' W' b c, of 10] by blast
  have "\<forall>c \<in> set results. \<exists>ce. embedding c = Some ce \<and> length (vector ce) = length (qvector ?qe)"
    using retrieve_embeddings[OF R] dims' by fastforce
  then obtain classified where
    C: "batch_classify_with conv (ysrn h) results ?q = Inr classified"
    using batch_classify_ok[OF q e] by blast
  show ?thesis
    unfolding submit_query_with_def Let_def R C bindE_def sum.case by blast
qed


lemma argsort_insertion_tie: "argsort_insertion [1 / 2, 1 / 2, 0] = [2, 0, 1]"
proof -
  have "[0 ..< length [1 / 2, 1 / 2, 0 :: real]] = [0, 1, 2]"
    by (simp add: upt_rec)
  then show ?thesis by (simp add: argsort_insertion_def)
qed

lemma argsort_insertion_single: "argsort_insertion [x] = [0]"
  by (simp add: argsort_insertion_def)

lemma compute_gate_mismatch:
  "length (W_gate self) \<noteq> length q \<Longrightarrow> compute_gate self q = Inl ShapeMismatch"
  by (simp add: compute_gate_def np_dot_vec_mat_def bindE_def)

lemma final_scores_of_mismatch:
  assumes W: "length (W_gate self) \<noteq> length q"
    and valid: "valid \<noteq> []" "\<forall>c \<in> set valid. length (vector (the (embedding c))) = length q"
  shows "final_scores_of self q valid = Inl ShapeMismatch"
proof -
  let ?keys = "map (\<lambda>c. vector (the (embedding c))) valid"
  let ?scores = "map (\<lambda>v. v / sqrt (real (length q) + eps)) (map (\<lambda>row. dot q row) ?keys)"
  have k1: "?keys \<noteq> []" using valid(1) by simp
  have k2: "\<forall>row \<in> set ?keys. length row = length q" using valid(2) by simp
  have hd: "length (hd ?keys) = length q" using k1 k2 by (cases valid) simp_all
  have 1: "np_stack ?keys = Inr ?keys"
    unfolding np_stack_def using k1 k2 hd by simp
  have d: "np_dot_vec_matT q ?keys = Inr (map (\<lambda>row. dot q row) ?keys)"
    using k2 unfolding np_dot_vec_matT_def by simp
  obtain w where 2: "softmax ?scores = Inr w" and lw: "length w = length ?keys"
    using k1 by (simp add: softmax_def Let_def)
  obtain sdpa where 3: "np_dot_vec_mat w ?keys = Inr sdpa"
    using lw by (simp add: np_dot_vec_mat_def)
  have "compute_gated_attention self q ?keys ?keys = Inl ShapeMismatch"
    unfolding compute_gated_attention_def Let_def d bindE_def sum.case 2 3
      compute_gate_mismatch[OF W]
    by simp
  then show ?thesis
    unfolding final_scores_of_def Let_def 1 bindE_def sum.case by simp
qed

lemma retrieve_shape_mismatch:
  assumes q: "q_embedding query = Some qe"
    and dims: "\<forall>c \<in> set candidates. \<forall>ce. embedding c = Some ce \<longrightarrow> length (vector ce) = length (qvector qe)"
    and ne: "filter (\<lambda>c. embedding c \<noteq> None) candidates \<noteq> []"
    and W: "length (W_gate self) \<noteq> length (qvector qe)"
  shows "retrieve np_argsort self query candidates top_k = Inl ShapeMismatch"
proof -
  have v2: "\<forall>c \<in> set (filter (\<lambda>c. embedding c \<noteq> None) candidates).
              length (vector (the (embedding c))) = length (qvector qe)"
    using dims by auto
  have c: "candidates \<noteq> []" using ne by auto
  show ?thesis
    unfolding retrieve_unfold
    using final_scores_of_mismatch[OF W ne v2] ne c by (simp add: q bindE_def)
qed

section \<open>Properties of the decomposition engine\<close>

subsection \<open>Ratio closure\<close>

text \<open>
  Claim C1, as amended. For every pair of vectors of one dimension and an engine without a
  learned projection, \<open>decompose\<close> returns a result whose three ratios are non-negative
  and sum to less than 1; the sum is within \<open>1e-6\<close> of 1 whenever the norm of the context
  embedding is at least the epsilon \<open>1e-8\<close>. (For the zero context vector all three
  ratios are 0.)
\<close>
theorem ratio_closure:
  assumes "length c = length q" and "W_relevance self = None"
  shows "\<exists>res. decompose_with converged self c q = Inr res
           \<and> 0 \<le> relevance_ratio res \<and> 0 \<le> superfluous_ratio res \<and> 0 \<le> noise_ratio res
           \<and> relevance_ratio res + superfluous_ratio res + noise_ratio res < 1
           \<and> (eps \<le> np_linalg_norm c \<longrightarrow>
                \<bar>relevance_ratio res + superfluous_ratio res + noise_ratio res - 1\<bar> \<le> 1 / 10 ^ 6)"
proof -
  let ?Y = "map (\<lambda>x. x / (np_linalg_norm c + eps)) c"
  let ?qn = "map (\<lambda>x. x / (np_linalg_norm q + eps)) q"
  let ?R = "map (\<lambda>x. dot ?Y ?qn * x) ?qn"
  let ?N = "noise_of (converged (np_sub ?Y ?R)) (noise_threshold self) (np_sub ?Y ?R)"
  let ?S = "np_sub (np_sub ?Y ?R) ?N"
  let ?a = "np_linalg_norm ?R" and ?b = "np_linalg_norm ?S" and ?d = "np_linalg_norm ?N"
  let ?T = "?a + ?b + ?d"
  obtain res where res: "decompose_with converged self c q = Inr res"
    and rr: "relevance_ratio res = ?a / (?T + eps)"
    and sr: "superfluous_ratio res = ?b / (?T + eps)"
    and nr: "noise_ratio res = ?d / (?T + eps)"
    using decompose_with_no_W[OF assms, of converged] by auto
  have a: "0 \<le> ?a" and b: "0 \<le> ?b" and d: "0 \<le> ?d" by (rule np_linalg_norm_nonneg)+
  have T: "0 \<le> ?T" using a b d by simp
  have pos: "0 < ?T + eps" using T eps_pos by simp
  have sum: "relevance_ratio res + superfluous_ratio res + noise_ratio res = ?T / (?T + eps)"
    by (simp add: rr sr nr add_divide_distrib)
  have lt: "?T / (?T + eps) < 1" using pos eps_pos by simp
  have close: "\<bar>?T / (?T + eps) - 1\<bar> \<le> 1 / 10 ^ 6" if big: "eps \<le> np_linalg_norm c"
  proof -
    have cpos: "0 < np_linalg_norm c + eps" using np_linalg_norm_nonneg[of c] eps_pos by simp
    have "np_linalg_norm ?Y = np_linalg_norm c / (np_linalg_norm c + eps)"
      by (rule norm_scale[OF cpos])
    moreover have "1 / 2 \<le> np_linalg_norm c / (np_linalg_norm c + eps)"
      using big cpos by (simp add: field_simps)
    moreover have "np_linalg_norm ?Y \<le> ?T"
      by (rule norm_three) (simp_all add: assms length_noise_of np_sub_def)
    ultimately have half: "1 / 2 \<le> ?T" by linarith
    have "1 - ?T / (?T + eps) = eps / (?T + eps)" using pos by (simp add: field_simps)
    also have "\<dots> \<le> eps / (1 / 2)"
      using half eps_pos by (intro divide_left_mono) (simp_all add: mult_pos_pos)
    also have "\<dots> \<le> 1 / 10 ^ 6" by (simp add: eps_def)
    finally have "1 - ?T / (?T + eps) \<le> 1 / 10 ^ 6" .
    with lt show ?thesis by simp
  qed
  show ?thesis
    using res a b d pos lt close
    by (intro exI[of _ res]) (simp add: sum, simp add: rr sr nr)
qed

theorem ratio_closure_witness:
  "\<exists>res. decompose (YSRNEngine_init (3/10) (1/10) 64) [3, 4] [1, 0] = Inr res
       \<and> 0 \<le> relevance_ratio res \<and> 0 \<le> superfluous_ratio res \<and> 0 \<le> noise_ratio res
       \<and> relevance_ratio res + superfluous_ratio res + noise_ratio res < 1
       \<and> \<bar>relevance_ratio res + superfluous_ratio res + noise_ratio res - 1\<bar> \<le> 1 / 10 ^ 6"
proof -
  have n: "np_linalg_norm [3, 4] = 5"
  proof -
    have "np_linalg_norm [3, 4] = sqrt (5\<^sup>2)" by (simp add: np_linalg_norm_def)
    then show ?thesis by simp
  qed
  have big: "eps \<le> np_linalg_norm [3, 4]" by (simp add: n eps_def)
  show ?thesis
    using ratio_closure[of "[3, 4]" "[1, 0]" "YSRNEngine_init (3/10) (1/10) 64" "\<lambda>_. True"] big
    by (simp add: init_no_W decompose_def)
qed

theorem ratio_closure_zero_context_counterexample:
  "decompose (YSRNEngine_init (3/10) (1/10) 64) [0, 0] [1, 0] =
     Inr \<lparr> dr_Y = [0, 0], dr_R = [0, 0], dr_S = [0, 0], dr_N = [0, 0],
            relevance_ratio = 0, superfluous_ratio = 0, noise_ratio = 0,
            signal_quality = 0, confidence = 0,
            r_components = 1, s_components = 0, n_components = 0 \<rparr>
   \<and> \<not> \<bar>(0::real) + 0 + 0 - 1\<bar> \<le> 1 / 10 ^ 6"
proof -
  have N: "noise_of True (1/10) [0, 0] = [0, 0]"
    by (simp add: noise_of_def norm_zero2)
  show ?thesis
    unfolding decompose_def decompose_with_unfold bindE_def
    by (simp add: YSRNEngine_init_def norm_zero2 norm_one_zero dot_def np_sub_def N)
qed

subsection \<open>Bounded confidence\<close>

text \<open>
  Claim C6. Whenever \<open>decompose\<close> returns a result, for any engine configuration, any
  outcome of the SVD call and any pair of vectors (zero vectors and vectors that are not
  unit vectors included), the confidence of the result lies in the closed interval from 0
  to 1. It is the absolute value of the dot product of the two normalised vectors, bounded
  by the Cauchy-Schwarz inequality.
\<close>
theorem decompose_confidence_bounded:
  "decompose_with converged self c q = Inr res \<Longrightarrow> 0 \<le> confidence res \<and> confidence res \<le> 1"
  using decompose_with_Inr(2)[of converged self c q res] unit_dot_bound[of c q] by simp

theorem decompose_confidence_bounded_witness:
  "\<exists>res. decompose (YSRNEngine_init (3/10) (1/10) 64) [3, 4] [1, 0] = Inr res
       \<and> 0 \<le> confidence res \<and> confidence res \<le> 1"
proof -
  obtain res where r: "decompose_with (\<lambda>_. True) (YSRNEngine_init (3/10) (1/10) 64) [3, 4] [1, 0] = Inr res"
    using decompose_with_no_W[of "[3, 4]" "[1, 0]" "YSRNEngine_init (3/10) (1/10) 64" "\<lambda>_. True"]
    by (auto simp: init_no_W)
  show ?thesis
    using r decompose_confidence_bounded[OF r] by (auto simp: decompose_def)
qed

subsection \<open>Missing embeddings\<close>

text \<open>
  Claim C7. \<open>classify_context\<close>, and \<open>classify\<close> which delegates to it, raise the
  missing-embedding error exactly when the embedding of the candidate or of the query is
  absent: the check precedes the decomposition, and with both embeddings present no later
  step raises that error.
\<close>
theorem classify_missing_embedding_iff:
  "(classify_context_with converged self context query = Inl MissingEmbedding
      \<longleftrightarrow> embedding context = None \<or> q_embedding query = None)
   \<and> (classify_with converged clf context query = Inl MissingEmbedding
      \<longleftrightarrow> embedding context = None \<or> q_embedding query = None)"
proof -
  have "classify_context_with conv e context query = Inl MissingEmbedding
      \<longleftrightarrow> embedding context = None \<or> q_embedding query = None" for conv e
    using decompose_with_not_missing
    by (auto simp: classify_context_with_def bindE_def split: option.splits sum.splits)
  then show ?thesis by (simp add: classify_with_def)
qed

theorem classify_missing_embedding_iff_witness:
  "classify_context (YSRNEngine_init (3/10) (1/10) 64)
     \<lparr> block_id = ''c1'', content = ''text'', embedding = None, metadata = [], created_at = 0,
       relevance_score = None, superfluous_score = None, noise_score = None \<rparr>
     \<lparr> query_id = ''q1'', query_text = ''text'',
       q_embedding = Some \<lparr> qvector = [1, 0], qdimension = 2 \<rparr>, constraints = [] \<rparr>
   = Inl MissingEmbedding
   \<and> classify_context (YSRNEngine_init (3/10) (1/10) 64)
     \<lparr> block_id = ''c1'', content = ''text'',
       embedding = Some \<lparr> vector = [0, 1], dimension = 2, model_id = ''default'' \<rparr>,
       metadata = [], created_at = 0,
       relevance_score = None, superfluous_score = None, noise_score = None \<rparr>
     \<lparr> query_id = ''q1'', query_text = ''text'',
       q_embedding = Some \<lparr> qvector = [1, 0], qdimension = 2 \<rparr>, constraints = [] \<rparr>
   \<noteq> Inl MissingEmbedding"
  unfolding classify_context_def
  using classify_missing_embedding_iff[of "\<lambda>_. True"]
  by simp

subsection \<open>Additive identity\<close>

text \<open>
  Claim C8. Without a learned projection, for every pair of vectors of one dimension,
  \<open>decompose\<close> returns four vectors of that dimension with \<open>S = (Y - R) - N\<close> and
  \<open>R + S + N = Y\<close>, exactly, whatever the SVD call did.
\<close>
theorem additive_identity:
  assumes "length c = length q" and "W_relevance self = None"
  shows "\<exists>res. decompose_with converged self c q = Inr res
           \<and> length (dr_Y res) = length c \<and> length (dr_R res) = length c
           \<and> length (dr_S res) = length c \<and> length (dr_N res) = length c
           \<and> dr_S res = np_sub (np_sub (dr_Y res) (dr_R res)) (dr_N res)
           \<and> map2 (+) (map2 (+) (dr_R res) (dr_S res)) (dr_N res) = dr_Y res"
proof -
  obtain res where "decompose_with converged self c q = Inr res"
    and "dr_Y res = map (\<lambda>x. x / (np_linalg_norm c + eps)) c"
    and "dr_R res = map (\<lambda>x. dot (dr_Y res) (map (\<lambda>x. x / (np_linalg_norm q + eps)) q) * x)
                      (map (\<lambda>x. x / (np_linalg_norm q + eps)) q)"
    and "dr_N res = noise_of (converged (np_sub (dr_Y res) (dr_R res))) (noise_threshold self) (np_sub (dr_Y res) (dr_R res))"
    and "dr_S res = np_sub (np_sub (dr_Y res) (dr_R res)) (dr_N res)"
    using decompose_with_no_W[OF assms, of converged] by auto
  moreover from this have "length (dr_Y res) = length c" "length (dr_R res) = length c"
    using assms(1) by simp_all
  moreover from calculation have "length (dr_N res) = length c"
    by (simp add: length_noise_of np_sub_def)
  moreover from calculation have "length (dr_S res) = length c"
    by (simp add: np_sub_def)
  ultimately show ?thesis
    using rsn_sum[of "dr_R res" "dr_Y res" "dr_N res"] by (intro exI[of _ res]) simp
qed

theorem additive_identity_witness:
  "\<exists>res. decompose (YSRNEngine_init (3/10) (1/10) 64) [3, 4] [1, 0] = Inr res
       \<and> map2 (+) (map2 (+) (dr_R res) (dr_S res)) (dr_N res) = dr_Y res"
  using additive_identity[of "[3, 4]" "[1, 0]" "YSRNEngine_init (3/10) (1/10) 64" "\<lambda>_. True"]
  by (auto simp: init_no_W decompose_def)

subsection \<open>Degenerate spectral split\<close>

text \<open>
  Claim C9. With a noise threshold \<open>t\<close> strictly between 0 and 1 and no learned
  projection, whenever the squared norm of the residual \<open>Y - R\<close> exceeds
  \<open>(1 - t) / t * 1e-8\<close>, the single singular component is classified as noise: \<open>N\<close> is
  the whole residual, \<open>S\<close> is the zero vector, the superfluous ratio is 0, one component is
  counted as noise and none as superfluous.
\<close>
theorem spectral_split_degenerate:
  assumes ret: "decompose self c q = Inr res"
    and W: "W_relevance self = None"
    and t0: "0 < noise_threshold self" and t1: "noise_threshold self < 1"
    and big: "(np_linalg_norm (np_sub (dr_Y res) (dr_R res)))\<^sup>2
                > (1 - noise_threshold self) / noise_threshold self * eps"
  shows "dr_N res = np_sub (dr_Y res) (dr_R res) \<and> dr_S res = replicate (length c) 0
       \<and> superfluous_ratio res = 0 \<and> n_components res = 1 \<and> s_components res = 0"
proof -
  define t where "t = noise_threshold self"
  define Y where "Y = map (\<lambda>x. x / (np_linalg_norm c + eps)) c"
  define qn where "qn = map (\<lambda>x. x / (np_linalg_norm q + eps)) q"
  define R where "R = map (\<lambda>x. dot Y qn * x) qn"
  define r where "r = np_sub Y R"
  define a where "a = np_linalg_norm r"
  define N where "N = noise_of True t r"
  define S where "S = np_sub r N"
  define sv where "sv = (if True \<and> r = [] then [] else [a])"
  define ni where "ni = (if a\<^sup>2 / (a\<^sup>2 + eps) > 1 - t \<and> (r \<noteq> [] \<or> \<not> True) then [0::nat] else [])"
  have len: "length c = length q"
    using ret decompose_with_Inr(1) by (simp add: decompose_def)
  have lr: "length r = length c" by (simp add: r_def R_def Y_def qn_def np_sub_def len)
  have "decompose_with (\<lambda>_. True) self c q =
          Inr \<lparr> dr_Y = Y, dr_R = R, dr_S = S, dr_N = N,
                 relevance_ratio = np_linalg_norm R /
                    (np_linalg_norm R + np_linalg_norm S + np_linalg_norm N + eps),
                 superfluous_ratio = np_linalg_norm S /
                    (np_linalg_norm R + np_linalg_norm S + np_linalg_norm N + eps),
                 noise_ratio = np_linalg_norm N /
                    (np_linalg_norm R + np_linalg_norm S + np_linalg_norm N + eps),
                 signal_quality = np_linalg_norm R / (np_linalg_norm S + np_linalg_norm N + eps),
                 confidence = \<bar>dot Y qn\<bar>,
                 r_components = 1,
                 s_components = max 0 (int (length sv) - int (length ni) - 1),
                 n_components = int (length ni) \<rparr>"
    unfolding decompose_with_unfold bindE_def W option.case sum.case
      Y_def qn_def R_def r_def a_def N_def S_def sv_def ni_def t_def
    by (simp only: len simp_thms if_True)
  with ret have res:
    "dr_Y res = Y" "dr_R res = R" "dr_S res = S" "dr_N res = N"
    "superfluous_ratio res = np_linalg_norm S /
        (np_linalg_norm R + np_linalg_norm S + np_linalg_norm N + eps)"
    "s_components res = max 0 (int (length sv) - int (length ni) - 1)"
    "n_components res = int (length ni)"
    by (auto simp: decompose_def)
  have big': "a\<^sup>2 > (1 - t) / t * eps"
    using big by (simp only: res r_def a_def t_def)
  have thr: "0 \<le> (1 - t) / t * eps" using t0 t1 eps_pos by (simp add: t_def)
  have a2: "0 < a\<^sup>2" using big' thr by linarith
  have ne: "r \<noteq> []"
  proof
    assume "r = []"
    then have "a = 0" by (simp add: a_def norm_nil)
    with a2 show False by simp
  qed
  have sel: "a\<^sup>2 / (a\<^sup>2 + eps) > 1 - t"
    using big' energy_threshold[of t "a\<^sup>2"] t0 by (simp add: t_def)
  have N: "N = r" unfolding N_def using sel ne by (intro noise_of_selected) (simp_all add: a_def)
  have S: "S = replicate (length c) 0" by (simp add: S_def N np_sub_self lr)
  have 3: "superfluous_ratio res = 0"
    by (simp add: res S norm_replicate_zero)
  have 4: "n_components res = 1" using sel ne by (simp add: res ni_def)
  have 5: "s_components res = 0" using sel ne by (simp add: res ni_def sv_def)
  show ?thesis using 3 4 5 by (simp add: res N S r_def)
qed

theorem spectral_split_degenerate_witness:
  "\<exists>res. decompose (YSRNEngine_init (3/10) (1/10) 64) [0, 1] [1, 0] = Inr res
     \<and> (np_linalg_norm (np_sub (dr_Y res) (dr_R res)))\<^sup>2 > (1 - 1/10) / (1/10) * eps
     \<and> dr_N res = np_sub (dr_Y res) (dr_R res) \<and> dr_S res = [0, 0] \<and> superfluous_ratio res = 0"
proof -
  let ?e = "YSRNEngine_init (3/10) (1/10) 64"
  obtain res where ret: "decompose ?e [0, 1] [1, 0] = Inr res"
    and Y: "dr_Y res = map (\<lambda>x. x / (np_linalg_norm [0, 1] + eps)) [0, 1]"
    and R: "dr_R res = map (\<lambda>x. dot (dr_Y res) (map (\<lambda>x. x / (np_linalg_norm [1, 0] + eps)) [1, 0]) * x)
                      (map (\<lambda>x. x / (np_linalg_norm [1, 0] + eps)) [1, 0])"
    using decompose_with_no_W[of "[0, 1]" "[1, 0]" ?e "\<lambda>_. True"]
    by (auto simp: init_no_W decompose_def)
  have Y': "dr_Y res = [0, 1 / (1 + eps)]" by (simp add: Y norm_two)
  have R': "dr_R res = [0, 0]" by (simp add: R Y' norm_two dot_def)
  have big: "(np_linalg_norm (np_sub (dr_Y res) (dr_R res)))\<^sup>2 > (1 - 1/10) / (1/10) * eps"
    by (simp add: Y' R' np_sub_def np_linalg_norm_sq eps_def)
  have t: "noise_threshold ?e = 1/10" by (simp add: YSRNEngine_init_def)
  show ?thesis
    using ret big spectral_split_degenerate[OF ret init_no_W, unfolded t]
    by (intro exI[of _ res]) simp
qed

subsection \<open>Totality\<close>

text \<open>
  Claim C10. For every pair of real vectors of one dimension, the all-zero vectors
  included, \<open>decompose\<close> returns a result, whether the SVD call returned or raised (the
  learned projection being absent, as the constructor leaves it, or having rows of the
  vectors' dimension); when the SVD call raised, the fallback spectrum consists of the norm
  of the residual alone; and every denominator of the function (a norm plus epsilon, the
  total energy plus epsilon, the sum of the three norms plus epsilon, the two norms plus
  epsilon of the signal quality) is strictly positive.
\<close>
theorem decompose_total:
  assumes "length c = length q"
    and "\<forall>W. W_relevance self = Some W \<longrightarrow> (\<forall>row \<in> set W. length row = length q)"
  shows "(\<exists>res. decompose_with converged self c q = Inr res)
       \<and> (\<exists>N noise_indices. separate_noise (\<lambda>_. False) self residual
              = Inr (N, [np_linalg_norm residual], noise_indices))
       \<and> 0 < np_linalg_norm v + eps
       \<and> 0 < sum_list (map (\<lambda>x. x ^ 2) s) + eps
       \<and> 0 < np_linalg_norm R + np_linalg_norm S + np_linalg_norm N' + eps
       \<and> 0 < np_linalg_norm S + np_linalg_norm N' + eps"
proof -
  have 1: "\<exists>res. decompose_with converged self c q = Inr res"
  proof (cases "W_relevance self")
    case None
    then show ?thesis using decompose_with_no_W[OF assms(1), of self converged] by blast
  next
    case (Some W)
    then have "\<forall>row \<in> set W. length row = length q" using assms(2) by simp
    then show ?thesis
      unfolding decompose_with_unfold bindE_def
      by (simp add: assms(1) Some matvec_def)
  qed
  have 2: "\<exists>N noise_indices. separate_noise (\<lambda>_. False) self residual
              = Inr (N, [np_linalg_norm residual], noise_indices)"
    by (simp add: separate_noise_eq)
  have 3: "0 \<le> sum_list (map (\<lambda>x. x ^ 2) s)"
    by (induction s) simp_all
  show ?thesis
    using 1 2 3 eps_pos np_linalg_norm_nonneg[of v] np_linalg_norm_nonneg[of R]
      np_linalg_norm_nonneg[of S] np_linalg_norm_nonneg[of N']
    by (intro conjI) (assumption, assumption, linarith+)
qed

theorem decompose_total_witness:
  "(\<exists>res. decompose (YSRNEngine_init (3/10) (1/10) 64) [0, 0] [0, 0] = Inr res)
   \<and> (\<exists>res. decompose_with (\<lambda>_. False)
          ((YSRNEngine_init (3/10) (1/10) 64) \<lparr> W_relevance := Some [[1, 0], [0, 1]] \<rparr>)
          [3, 4] [0, 0] = Inr res)"
proof -
  have "\<exists>res. decompose_with (\<lambda>_. True) (YSRNEngine_init (3/10) (1/10) 64) [0, 0] [0, 0] = Inr res"
    using decompose_total[of "[0, 0]" "[0, 0]" "YSRNEngine_init (3/10) (1/10) 64" "\<lambda>_. True"]
    by (simp add: init_no_W)
  moreover have "\<exists>res. decompose_with (\<lambda>_. False)
          ((YSRNEngine_init (3/10) (1/10) 64) \<lparr> W_relevance := Some [[1, 0], [0, 1]] \<rparr>)
          [3, 4] [0, 0] = Inr res"
    using decompose_total[of "[3, 4]" "[0, 0]"
          "(YSRNEngine_init (3/10) (1/10) 64) \<lparr> W_relevance := Some [[1, 0], [0, 1]] \<rparr>" "\<lambda>_. False"]
    by simp
  ultimately show ?thesis by (simp add: decompose_def)
qed

section \<open>Properties of the retriever and the pipeline\<close>

subsection \<open>Final scores\<close>

text \<open>
  Claim C2, as amended. Take a query with an embedding, candidates whose embeddings (where
  present) have the dimension of the query, at least one of them with an embedding, a
  retriever whose gate matrix has as many rows as the query has entries (the hidden
  dimension \<open>num_heads * head_dim\<close> equals the dimension of the embeddings) and whose
  bias has one entry per column of the gate matrix, and a sorting routine \<open>np.argsort\<close>
  that meets its contract. Then the gate is computed, and the final score of every
  candidate that has an embedding, returned or not, is the raw dot product of the query
  embedding with that candidate's embedding times one scalar, the same for every
  candidate: the mean of the first \<open>n\<close> entries of the gate vector, where \<open>n\<close> is the
  number of candidates that have an embedding (the mean of the whole gate vector only when
  \<open>n\<close> is at least its length; \<open>0.5\<close> for an empty gate). \<open>retrieve\<close> returns the
  candidates at the selected positions, each with that final score written as its
  relevance score.
\<close>
theorem retrieve_final_scores:
  assumes q: "q_embedding query = Some qe"
    and dims: "\<forall>c \<in> set candidates. \<forall>ce. embedding c = Some ce \<longrightarrow> length (vector ce) = length (qvector qe)"
    and ne: "filter (\<lambda>c. embedding c \<noteq> None) candidates \<noteq> []"
    and W: "length (W_gate self) = length (qvector qe)"
    and b: "length (gate_bias self) = ncols (W_gate self)"
    and c: "argsort_contract np_argsort"
  shows "\<exists>gate final_scores.
           compute_gate self (qvector qe) = Inr gate
         \<and> final_scores_of self (qvector qe) (filter (\<lambda>c. embedding c \<noteq> None) candidates)
             = Inr final_scores
         \<and> final_scores =
             map (\<lambda>c. dot (qvector qe) (vector (the (embedding c))) *
                      (if gate = [] then 1 / 2
                       else sum_list (take (length (filter (\<lambda>c. embedding c \<noteq> None) candidates)) gate)
                            / real (min (length gate)
                                 (length (filter (\<lambda>c. embedding c \<noteq> None) candidates)))))
               (filter (\<lambda>c. embedding c \<noteq> None) candidates)
         \<and> retrieve np_argsort self query candidates top_k =
             Inr (map (\<lambda>idx. (filter (\<lambda>c. embedding c \<noteq> None) candidates ! idx)
                               \<lparr> relevance_score := Some (final_scores ! idx) \<rparr>)
                    (py_slice_to top_k (rev (np_argsort final_scores))))"
proof -
  obtain gate fs where "compute_gate self (qvector qe) = Inr gate"
    and "fs = map (\<lambda>c. dot (qvector qe) (vector (the (embedding c))) *
                 mean_gate_of (length (filter (\<lambda>c. embedding c \<noteq> None) candidates)) gate)
               (filter (\<lambda>c. embedding c \<noteq> None) candidates)"
    and "final_scores_of self (qvector qe) (filter (\<lambda>c. embedding c \<noteq> None) candidates) = Inr fs"
    and "retrieve np_argsort self query candidates top_k =
             Inr (map (\<lambda>idx. (filter (\<lambda>c. embedding c \<noteq> None) candidates ! idx)
                               \<lparr> relevance_score := Some (fs ! idx) \<rparr>)
                    (py_slice_to top_k (rev (np_argsort fs))))"
    using retrieve_eq[OF q dims W b c, of top_k] ne by blast
  then show ?thesis
    unfolding mean_gate_of_def by (intro exI[of _ gate] exI[of _ fs]) simp
qed

theorem retrieve_final_scores_witness:
  "\<exists>gate final_scores.
      compute_gate (GatedContextRetriever_init 1 2 (-2) [[50, 0], [0, 0]]) [2, 0] = Inr gate
    \<and> final_scores_of (GatedContextRetriever_init 1 2 (-2) [[50, 0], [0, 0]]) [2, 0]
        [ContextBlock_new ''a'' ''x'' (Some (ContextEmbedding_from_numpy [1, 0]))]
        = Inr final_scores
    \<and> final_scores =
        map (\<lambda>c. dot [2, 0] (vector (the (embedding c))) *
                 (if gate = [] then 1 / 2
                  else sum_list (take 1 gate) / real (min (length gate) 1)))
          [ContextBlock_new ''a'' ''x'' (Some (ContextEmbedding_from_numpy [1, 0]))]
    \<and> retrieve argsort_insertion (GatedContextRetriever_init 1 2 (-2) [[50, 0], [0, 0]])
         \<lparr> query_id = ''q'', query_text = ''t'',
           q_embedding = Some (QueryEmbedding_from_numpy [2, 0]), constraints = [] \<rparr>
         [ContextBlock_new ''a'' ''x'' (Some (ContextEmbedding_from_numpy [1, 0]))] 10
        = Inr (map (\<lambda>idx. ([ContextBlock_new ''a'' ''x'' (Some (ContextEmbedding_from_numpy [1, 0]))] ! idx)
                           \<lparr> relevance_score := Some (final_scores ! idx) \<rparr>)
                (py_slice_to 10 (rev (argsort_insertion final_scores))))"
proof -
  let ?r = "GatedContextRetriever_init 1 2 (-2) [[50, 0], [0, 0]]"
  let ?qe = "QueryEmbedding_from_numpy [2, 0]"
  let ?q = "\<lparr> query_id = ''q'', query_text = ''t'', q_embedding = Some ?qe, constraints = [] \<rparr>"
  let ?c = "ContextBlock_new ''a'' ''x'' (Some (ContextEmbedding_from_numpy [1, 0]))"
  have qv: "qvector ?qe = [2, 0]" by (simp add: QueryEmbedding_from_numpy_def)
  have h1: "q_embedding ?q = Some ?qe" by simp
  have h2: "\<forall>c \<in> set [?c]. \<forall>ce. embedding c = Some ce \<longrightarrow> length (vector ce) = length (qvector ?qe)"
    by (auto simp: qv ContextBlock_new_def ContextEmbedding_from_numpy_def)
  have valid: "filter (\<lambda>c. embedding c \<noteq> None) [?c] = [?c]"
    by (simp add: ContextBlock_new_def)
  have h3: "filter (\<lambda>c. embedding c \<noteq> None) [?c] \<noteq> []"
    unfolding valid by simp
  have h4: "length (W_gate ?r) = length (qvector ?qe)"
    by (simp add: qv GatedContextRetriever_init_def)
  have h5: "length (gate_bias ?r) = ncols (W_gate ?r)"
    by (simp add: GatedContextRetriever_init_def ncols_def)
  have l: "length [?c] = 1" by simp
  show ?thesis
    using retrieve_final_scores[OF h1 h2 h3 h4 h5 argsort_insertion_contract, of 10]
    unfolding valid l qv .
qed

theorem retrieve_mean_of_gate_prefix_counterexample:
  "compute_gate (GatedContextRetriever_init 1 2 (-2) [[50, 0], [0, 0]]) [2, 0]
     = Inr [1 / 2, 1 / (1 + exp 2)]
   \<and> final_scores_of (GatedContextRetriever_init 1 2 (-2) [[50, 0], [0, 0]]) [2, 0]
        [ContextBlock_new ''a'' ''x'' (Some (ContextEmbedding_from_numpy [1, 0]))]
     = Inr [1]
   \<and> retrieve argsort_insertion (GatedContextRetriever_init 1 2 (-2) [[50, 0], [0, 0]])
         \<lparr> query_id = ''q'', query_text = ''t'',
           q_embedding = Some (QueryEmbedding_from_numpy [2, 0]), constraints = [] \<rparr>
         [ContextBlock_new ''a'' ''x'' (Some (ContextEmbedding_from_numpy [1, 0]))] 10
     = Inr [(ContextBlock_new ''a'' ''x'' (Some (ContextEmbedding_from_numpy [1, 0])))
              \<lparr> relevance_score := Some 1 \<rparr>]
   \<and> (1::real) \<noteq> dot [2, 0] [1, 0] * (sum_list [1 / 2, 1 / (1 + exp 2)] / 2)"
proof -
  let ?r = "GatedContextRetriever_init 1 2 (-2) [[50, 0], [0, 0]]"
  let ?qe = "QueryEmbedding_from_numpy [2, 0]"
  let ?q = "\<lparr> query_id = ''q'', query_text = ''t'', q_embedding = Some ?qe, constraints = [] \<rparr>"
  let ?c = "ContextBlock_new ''a'' ''x'' (Some (ContextEmbedding_from_numpy [1, 0]))"
  have qv: "qvector ?qe = [2, 0]" by (simp add: QueryEmbedding_from_numpy_def)
  have h1: "q_embedding ?q = Some ?qe" by simp
  have h2: "\<forall>c \<in> set [?c]. \<forall>ce. embedding c = Some ce \<longrightarrow> length (vector ce) = length (qvector ?qe)"
    by (auto simp: qv ContextBlock_new_def ContextEmbedding_from_numpy_def)
  have valid: "filter (\<lambda>c. embedding c \<noteq> None) [?c] = [?c]"
    by (simp add: ContextBlock_new_def)
  have h4: "length (W_gate ?r) = length (qvector ?qe)"
    by (simp add: qv GatedContextRetriever_init_def)
  have h5: "length (gate_bias ?r) = ncols (W_gate ?r)"
    by (simp add: GatedContextRetriever_init_def ncols_def)
  obtain gate fs where gate: "compute_gate ?r (qvector ?qe) = Inr gate"
    and fs: "fs = map (\<lambda>c. dot (qvector ?qe) (vector (the (embedding c)))
                      * mean_gate_of (length [?c]) gate) [?c]"
    and F: "[?c] \<noteq> [] \<longrightarrow> final_scores_of ?r (qvector ?qe) [?c] = Inr fs"
    and R: "retrieve argsort_insertion ?r ?q [?c] 10 =
               Inr (map (\<lambda>idx. ([?c] ! idx) \<lparr> relevance_score := Some (fs ! idx) \<rparr>)
                      (py_slice_to 10 (rev (argsort_insertion fs))))"
    using retrieve_eq[OF h1 h2 h4 h5 argsort_insertion_contract, of 10] unfolding valid by blast
  have g: "gate = [1 / 2, 1 / (1 + exp 2)]"
    using gate compute_gate_example by (simp add: qv)
  have fs1: "fs = [1]"
    unfolding fs
    by (simp add: qv ContextBlock_new_def ContextEmbedding_from_numpy_def dot_def mean_gate_of_def g)
  have 1: "final_scores_of ?r [2, 0] [?c] = Inr [1]"
    using F unfolding fs1 qv by simp
  have 2: "retrieve argsort_insertion ?r ?q [?c] 10 = Inr [?c \<lparr> relevance_score := Some 1 \<rparr>]"
    unfolding R fs1 argsort_insertion_single by (simp add: py_slice_to_def)
  have "exp (2::real) \<noteq> 1" by simp
  moreover have "0 < 1 + exp (2::real)" by (simp add: add_pos_pos)
  ultimately have "1 / (1 + exp (2::real)) \<noteq> 1 / 2"
    by (simp add: field_simps)
  then have 3: "(1::real) \<noteq> dot [2, 0] [1, 0] * (sum_list [1 / 2, 1 / (1 + exp 2)] / 2)"
    by (simp add: dot_def)
  show ?thesis using compute_gate_example 1 2 3 by blast
qed

subsection \<open>Top-k ranking\<close>

text \<open>
  Claim C3, as amended. Take a query with an embedding, \<open>n\<close> candidates that all have
  embeddings of the query's dimension, a retriever whose gate matrix has as many rows as
  the query has entries (the hidden dimension \<open>num_heads * head_dim\<close> equals the
  dimension of the embeddings) and whose bias has one entry per column of the gate matrix,
  a sorting routine \<open>np.argsort\<close> that meets its contract, and \<open>0 \<le> k < n\<close>. Then
  \<open>retrieve\<close> returns exactly \<open>k\<close> candidates, at \<open>k\<close> distinct positions of the input
  list, each with its final score written, in descending order of final score. The
  positions are the first \<open>k\<close> of the reversed ascending argsort of the final scores, so
  candidates with equal final scores come in the reverse of the order in which
  \<open>np.argsort\<close> leaves them, which numpy does not fix; the order of the input is not
  promised. When the gate matrix does not have as many rows as the query has entries,
  \<open>retrieve\<close> raises and returns nothing.
\<close>
theorem retrieve_top_k:
  assumes q: "q_embedding query = Some qe"
    and all: "\<forall>c \<in> set candidates. \<exists>ce. embedding c = Some ce \<and> length (vector ce) = length (qvector qe)"
    and W: "length (W_gate self) = length (qvector qe)"
    and b: "length (gate_bias self) = ncols (W_gate self)"
    and c: "argsort_contract np_argsort"
    and k0: "0 \<le> k" and kn: "k < int (length candidates)"
  shows "\<exists>final_scores sorted_indices.
           final_scores_of self (qvector qe) candidates = Inr final_scores
         \<and> sorted_indices = py_slice_to k (rev (np_argsort final_scores))
         \<and> retrieve np_argsort self query candidates k =
             Inr (map (\<lambda>idx. (candidates ! idx) \<lparr> relevance_score := Some (final_scores ! idx) \<rparr>)
                    sorted_indices)
         \<and> length sorted_indices = nat k
         \<and> distinct sorted_indices
         \<and> (\<forall>idx \<in> set sorted_indices. idx < length candidates)
         \<and> sorted_wrt (\<lambda>i j. final_scores ! i \<ge> final_scores ! j) sorted_indices"
proof -
  have valid: "filter (\<lambda>c. embedding c \<noteq> None) candidates = candidates"
    using all by (auto simp: filter_id_conv)
  have ne: "candidates \<noteq> []" using k0 kn by auto
  have dims: "\<forall>c \<in> set candidates. \<forall>ce. embedding c = Some ce \<longrightarrow> length (vector ce) = length (qvector qe)"
    using all by auto
  obtain gate fs where
        fs: "fs = map (\<lambda>c. dot (qvector qe) (vector (the (embedding c))) * mean_gate_of (length candidates) gate) candidates"
    and F: "final_scores_of self (qvector qe) candidates = Inr fs"
    and R: "retrieve np_argsort self query candidates k =
               Inr (map (\<lambda>idx. (candidates ! idx) \<lparr> relevance_score := Some (fs ! idx) \<rparr>)
                      (py_slice_to k (rev (np_argsort fs))))"
    using retrieve_eq[OF q dims W b c, of k] ne unfolding valid by blast
  have lfs: "length fs = length candidates" by (simp add: fs)
  have kl: "k \<le> int (length fs)" using kn lfs by simp
  show ?thesis
    using F R top_indices(1)[OF c, where k = k and fs = fs]
      top_indices(2)[OF c, where k = k and fs = fs]
      top_indices(3)[OF c, where k = k and fs = fs] top_indices(4)[OF c k0 kl]
    unfolding lfs
    by (intro exI[of _ fs] exI[of _ "py_slice_to k (rev (np_argsort fs))"]) simp
qed

theorem retrieve_top_k_witness:
  "\<exists>final_scores sorted_indices.
      final_scores_of (GatedContextRetriever_init 1 1 0 [[0]]) [1]
        [ContextBlock_new ''a'' ''x'' (Some (ContextEmbedding_from_numpy [1])),
         ContextBlock_new ''b'' ''y'' (Some (ContextEmbedding_from_numpy [1])),
         ContextBlock_new ''c'' ''z'' (Some (ContextEmbedding_from_numpy [0]))] = Inr final_scores
    \<and> sorted_indices = py_slice_to 2 (rev (argsort_insertion final_scores))
    \<and> retrieve argsort_insertion (GatedContextRetriever_init 1 1 0 [[0]])
        \<lparr> query_id = ''q'', query_text = ''t'',
          q_embedding = Some (QueryEmbedding_from_numpy [1]), constraints = [] \<rparr>
        [ContextBlock_new ''a'' ''x'' (Some (ContextEmbedding_from_numpy [1])),
         ContextBlock_new ''b'' ''y'' (Some (ContextEmbedding_from_numpy [1])),
         ContextBlock_new ''c'' ''z'' (Some (ContextEmbedding_from_numpy [0]))] 2 =
        Inr (map (\<lambda>idx. ([ContextBlock_new ''a'' ''x'' (Some (ContextEmbedding_from_numpy [1])),
                          ContextBlock_new ''b'' ''y'' (Some (ContextEmbedding_from_numpy [1])),
                          ContextBlock_new ''c'' ''z'' (Some (ContextEmbedding_from_numpy [0]))] ! idx)
                         \<lparr> relevance_score := Some (final_scores ! idx) \<rparr>)
               sorted_indices)
    \<and> length sorted_indices = 2
    \<and> distinct sorted_indices
    \<and> (\<forall>idx \<in> set sorted_indices. idx < 3)
    \<and> sorted_wrt (\<lambda>i j. final_scores ! i \<ge> final_scores ! j) sorted_indices"
proof -
  let ?r = "GatedContextRetriever_init 1 1 0 [[0]]"
  let ?qe = "QueryEmbedding_from_numpy [1]"
  let ?q = "\<lparr> query_id = ''q'', query_text = ''t'', q_embedding = Some ?qe, constraints = [] \<rparr>"
  let ?cs = "[ContextBlock_new ''a'' ''x'' (Some (ContextEmbedding_from_numpy [1])),
         ContextBlock_new ''b'' ''y'' (Some (ContextEmbedding_from_numpy [1])),
         ContextBlock_new ''c'' ''z'' (Some (ContextEmbedding_from_numpy [0]))]"
  have qv: "qvector ?qe = [1]" by (simp add: QueryEmbedding_from_numpy_def)
  have h1: "q_embedding ?q = Some ?qe" by simp
  have h2: "\<forall>c \<in> set ?cs. \<exists>ce. embedding c = Some ce \<and> length (vector ce) = length (qvector ?qe)"
    by (simp add: qv ContextBlock_new_def ContextEmbedding_from_numpy_def)
  have h3: "length (W_gate ?r) = length (qvector ?qe)"
    using unit_retriever_shape(1) by (simp add: qv)
  have h5: "(0::int) \<le> 2" by simp
  have h6: "(2::int) < int (length ?cs)" by simp
  have n: "nat 2 = 2" by simp
  have l: "length ?cs = 3" by simp
  show ?thesis
    using retrieve_top_k[OF h1 h2 h3 unit_retriever_shape(2) argsort_insertion_contract h5 h6]
    unfolding qv n l .
qed

theorem retrieve_top_k_counterexample:
  "retrieve argsort_insertion (GatedContextRetriever_init 1 2 0 [[0, 0], [0, 0]])
        \<lparr> query_id = ''q'', query_text = ''t'',
          q_embedding = Some (QueryEmbedding_from_numpy [1]), constraints = [] \<rparr>
        [ContextBlock_new ''a'' ''x'' (Some (ContextEmbedding_from_numpy [1])),
         ContextBlock_new ''b'' ''y'' (Some (ContextEmbedding_from_numpy [1]))] 1
     = Inl ShapeMismatch
   \<and> argsort_contract argsort_insertion
   \<and> final_scores_of (GatedContextRetriever_init 1 1 0 [[0]]) [1]
        [ContextBlock_new ''a'' ''x'' (Some (ContextEmbedding_from_numpy [1])),
         ContextBlock_new ''b'' ''y'' (Some (ContextEmbedding_from_numpy [1])),
         ContextBlock_new ''c'' ''z'' (Some (ContextEmbedding_from_numpy [0]))]
     = Inr [1 / 2, 1 / 2, 0]
   \<and> retrieve argsort_insertion (GatedContextRetriever_init 1 1 0 [[0]])
        \<lparr> query_id = ''q'', query_text = ''t'',
          q_embedding = Some (QueryEmbedding_from_numpy [1]), constraints = [] \<rparr>
        [ContextBlock_new ''a'' ''x'' (Some (ContextEmbedding_from_numpy [1])),
         ContextBlock_new ''b'' ''y'' (Some (ContextEmbedding_from_numpy [1])),
         ContextBlock_new ''c'' ''z'' (Some (ContextEmbedding_from_numpy [0]))] 2
     = Inr [(ContextBlock_new ''b'' ''y'' (Some (ContextEmbedding_from_numpy [1])))
              \<lparr> relevance_score := Some (1 / 2) \<rparr>,
            (ContextBlock_new ''a'' ''x'' (Some (ContextEmbedding_from_numpy [1])))
              \<lparr> relevance_score := Some (1 / 2) \<rparr>]"
proof -
  let ?r = "GatedContextRetriever_init 1 1 0 [[0]]"
  let ?r2 = "GatedContextRetriever_init 1 2 0 [[0, 0], [0, 0]]"
  let ?qe = "QueryEmbedding_from_numpy [1]"
  let ?q = "\<lparr> query_id = ''q'', query_text = ''t'', q_embedding = Some ?qe, constraints = [] \<rparr>"
  let ?ab = "[ContextBlock_new ''a'' ''x'' (Some (ContextEmbedding_from_numpy [1])),
         ContextBlock_new ''b'' ''y'' (Some (ContextEmbedding_from_numpy [1]))]"
  let ?cs = "[ContextBlock_new ''a'' ''x'' (Some (ContextEmbedding_from_numpy [1])),
         ContextBlock_new ''b'' ''y'' (Some (ContextEmbedding_from_numpy [1])),
         ContextBlock_new ''c'' ''z'' (Some (ContextEmbedding_from_numpy [0]))]"
  have qv: "qvector ?qe = [1]" by (simp add: QueryEmbedding_from_numpy_def)
  have h1: "q_embedding ?q = Some ?qe" by simp
  have m2: "\<forall>c \<in> set ?ab. \<forall>ce. embedding c = Some ce \<longrightarrow> length (vector ce) = length (qvector ?qe)"
    by (simp add: qv ContextBlock_new_def ContextEmbedding_from_numpy_def)
  have m3: "filter (\<lambda>c. embedding c \<noteq> None) ?ab \<noteq> []"
    by (simp add: ContextBlock_new_def)
  have m4: "length (W_gate ?r2) \<noteq> length (qvector ?qe)"
    by (simp add: qv GatedContextRetriever_init_def)
  have 0: "retrieve argsort_insertion ?r2 ?q ?ab 1 = Inl ShapeMismatch"
    using retrieve_shape_mismatch[OF h1 m2 m3 m4] .
  have h2: "\<forall>c \<in> set ?cs. \<forall>ce. embedding c = Some ce \<longrightarrow> length (vector ce) = length (qvector ?qe)"
    by (simp add: qv ContextBlock_new_def ContextEmbedding_from_numpy_def)
  have h3: "length (W_gate ?r) = length (qvector ?qe)"
    using unit_retriever_shape(1) by (simp add: qv)
  have valid: "filter (\<lambda>c. embedding c \<noteq> None) ?cs = ?cs"
    by (simp add: ContextBlock_new_def)
  obtain gate fs where gate: "compute_gate ?r (qvector ?qe) = Inr gate"
    and fs: "fs = map (\<lambda>c. dot (qvector ?qe) (vector (the (embedding c))) * mean_gate_of (length ?cs) gate) ?cs"
    and F: "?cs \<noteq> [] \<longrightarrow> final_scores_of ?r (qvector ?qe) ?cs = Inr fs"
    and R: "retrieve argsort_insertion ?r ?q ?cs 2 =
               Inr (map (\<lambda>idx. (?cs ! idx) \<lparr> relevance_score := Some (fs ! idx) \<rparr>)
                      (py_slice_to 2 (rev (argsort_insertion fs))))"
    using retrieve_eq[OF h1 h2 h3 unit_retriever_shape(2) argsort_insertion_contract, of 2]
    unfolding valid by blast
  have g: "gate = [1 / 2]" using gate compute_gate_unit by (simp add: qv)
  have fs1: "fs = [1 / 2, 1 / 2, 0]"
    unfolding fs
    by (simp add: qv ContextBlock_new_def ContextEmbedding_from_numpy_def dot_def mean_gate_of_def g)
  have 1: "final_scores_of ?r [1] ?cs = Inr [1 / 2, 1 / 2, 0]"
    using F unfolding fs1 qv by simp
  have 2: "retrieve argsort_insertion ?r ?q ?cs 2 =
     Inr [(ContextBlock_new ''b'' ''y'' (Some (ContextEmbedding_from_numpy [1])))
              \<lparr> relevance_score := Some (1 / 2) \<rparr>,
            (ContextBlock_new ''a'' ''x'' (Some (ContextEmbedding_from_numpy [1])))
              \<lparr> relevance_score := Some (1 / 2) \<rparr>]"
    unfolding R fs1 argsort_insertion_tie by (simp add: py_slice_to_def)
  show ?thesis using 0 argsort_insertion_contract 1 2 by blast
qed

subsection \<open>Classification scores of a candidate\<close>

text \<open>
  Claim C4, as amended. Whenever \<open>retrieve\<close> returns, every candidate it returns is one
  of the input candidates that have an embedding, with its relevance score set to its
  final score and every other field, the superfluous and noise scores among them, as it
  was in the input; so a fresh candidate comes back with only the relevance score set.
  Whenever \<open>classify_context\<close> returns, the candidate it returns has all three scores
  set; and whenever the pipeline returns, every candidate in its result has all three
  scores set.
\<close>
theorem scores_after_operations:
  assumes ret: "retrieve np_argsort self query candidates top_k = Inr results"
    and cl: "classify_context_with converged engine context query' = Inr context'"
    and pipe: "submit_query_with converged' np_argsort' handler qid text cons emb pool elapsed = Inr result"
  shows "(\<forall>ctx \<in> set results. \<exists>final_scores idx.
             final_scores_of self (qvector (the (q_embedding query)))
               (filter (\<lambda>c. embedding c \<noteq> None) candidates) = Inr final_scores
           \<and> idx < length (filter (\<lambda>c. embedding c \<noteq> None) candidates)
           \<and> ctx = (filter (\<lambda>c. embedding c \<noteq> None) candidates ! idx)
                     \<lparr> relevance_score := Some (final_scores ! idx) \<rparr>
           \<and> relevance_score ctx = Some (final_scores ! idx)
           \<and> superfluous_score ctx
               = superfluous_score (filter (\<lambda>c. embedding c \<noteq> None) candidates ! idx)
           \<and> noise_score ctx
               = noise_score (filter (\<lambda>c. embedding c \<noteq> None) candidates ! idx))
       \<and> (relevance_score context' \<noteq> None \<and> superfluous_score context' \<noteq> None
            \<and> noise_score context' \<noteq> None)
       \<and> (\<forall>ctx \<in> set (contexts result). relevance_score ctx \<noteq> None
            \<and> superfluous_score ctx \<noteq> None \<and> noise_score ctx \<noteq> None)"
proof (intro conjI)
  show "\<forall>ctx \<in> set results. \<exists>final_scores idx.
             final_scores_of self (qvector (the (q_embedding query)))
               (filter (\<lambda>c. embedding c \<noteq> None) candidates) = Inr final_scores
           \<and> idx < length (filter (\<lambda>c. embedding c \<noteq> None) candidates)
           \<and> ctx = (filter (\<lambda>c. embedding c \<noteq> None) candidates ! idx)
                     \<lparr> relevance_score := Some (final_scores ! idx) \<rparr>
           \<and> relevance_score ctx = Some (final_scores ! idx)
           \<and> superfluous_score ctx
               = superfluous_score (filter (\<lambda>c. embedding c \<noteq> None) candidates ! idx)
           \<and> noise_score ctx
               = noise_score (filter (\<lambda>c. embedding c \<noteq> None) candidates ! idx)"
  proof
    fix ctx assume "ctx \<in> set results"
    then obtain fs idx where
        "final_scores_of self (qvector (the (q_embedding query)))
               (filter (\<lambda>c. embedding c \<noteq> None) candidates) = Inr fs"
        "idx < length (filter (\<lambda>c. embedding c \<noteq> None) candidates)"
        "ctx = (filter (\<lambda>c. embedding c \<noteq> None) candidates ! idx)
                     \<lparr> relevance_score := Some (fs ! idx) \<rparr>"
      using retrieve_Inr[OF ret] by blast
    then show "\<exists>final_scores idx.
             final_scores_of self (qvector (the (q_embedding query)))
               (filter (\<lambda>c. embedding c \<noteq> None) candidates) = Inr final_scores
           \<and> idx < length (filter (\<lambda>c. embedding c \<noteq> None) candidates)
           \<and> ctx = (filter (\<lambda>c. embedding c \<noteq> None) candidates ! idx)
                     \<lparr> relevance_score := Some (final_scores ! idx) \<rparr>
           \<and> relevance_score ctx = Some (final_scores ! idx)
           \<and> superfluous_score ctx
               = superfluous_score (filter (\<lambda>c. embedding c \<noteq> None) candidates ! idx)
           \<and> noise_score ctx
               = noise_score (filter (\<lambda>c. embedding c \<noteq> None) candidates ! idx)"
      by (intro exI[of _ fs] exI[of _ idx]) simp
  qed
  have "batch_classify_with converged engine [context] query' = Inr [context']"
    using cl by simp
  from batch_classify_scores[OF this]
  show "relevance_score context' \<noteq> None" "superfluous_score context' \<noteq> None"
    "noise_score context' \<noteq> None" by simp_all
  from submit_query_Inr[OF pipe] obtain rs classified where
        "batch_classify_with converged' (ysrn handler) rs
             \<lparr> query_id = qid, query_text = text,
               q_embedding = Some (QueryEmbedding_from_numpy emb), constraints = (case cons of None \<Rightarrow> [] | Some cs \<Rightarrow> cs) \<rparr>
             = Inr classified"
    and "contexts result = sort_reverse (\<lambda>x. score_or_0 (relevance_score x)) classified"
    by blast
  then show "\<forall>ctx \<in> set (contexts result). relevance_score ctx \<noteq> None
            \<and> superfluous_score ctx \<noteq> None \<and> noise_score ctx \<noteq> None"
    using batch_classify_scores by (simp add: set_sort_reverse)
qed

theorem scores_after_operations_witness:
  "\<exists>results context' result.
      retrieve argsort_insertion (GatedContextRetriever_init 1 1 0 [[0]])
        \<lparr> query_id = ''q'', query_text = ''t'',
          q_embedding = Some (QueryEmbedding_from_numpy [1]), constraints = [] \<rparr>
        [ContextBlock_new ''a'' ''x'' (Some (ContextEmbedding_from_numpy [1]))] 10 = Inr results
    \<and> results \<noteq> []
    \<and> classify_context (YSRNEngine_init (3/10) (1/10) 64)
        (ContextBlock_new ''a'' ''x'' (Some (ContextEmbedding_from_numpy [1])))
        \<lparr> query_id = ''q'', query_text = ''t'',
          q_embedding = Some (QueryEmbedding_from_numpy [1]), constraints = [] \<rparr> = Inr context'
    \<and> submit_query argsort_insertion
        \<lparr> ysrn = YSRNEngine_init (3/10) (1/10) 64,
          retriever = GatedContextRetriever_init 1 1 0 [[0]] \<rparr>
        ''q'' ''t'' None [1]
        [ContextBlock_new ''a'' ''x'' (Some (ContextEmbedding_from_numpy [1]))] 0 = Inr result
    \<and> (\<forall>ctx \<in> set results. \<exists>final_scores idx.
          final_scores_of (GatedContextRetriever_init 1 1 0 [[0]]) [1]
            [ContextBlock_new ''a'' ''x'' (Some (ContextEmbedding_from_numpy [1]))] = Inr final_scores
        \<and> idx < 1
        \<and> ctx = ([ContextBlock_new ''a'' ''x'' (Some (ContextEmbedding_from_numpy [1]))] ! idx)
                  \<lparr> relevance_score := Some (final_scores ! idx) \<rparr>
        \<and> relevance_score ctx = Some (final_scores ! idx)
        \<and> superfluous_score ctx = None \<and> noise_score ctx = None)
    \<and> (relevance_score context' \<noteq> None \<and> superfluous_score context' \<noteq> None
          \<and> noise_score context' \<noteq> None)
    \<and> (\<forall>ctx \<in> set (contexts result). relevance_score ctx \<noteq> None
          \<and> superfluous_score ctx \<noteq> None \<and> noise_score ctx \<noteq> None)"
proof -
  let ?r = "GatedContextRetriever_init 1 1 0 [[0]]"
  let ?e = "YSRNEngine_init (3/10) (1/10) 64"
  let ?h = "\<lparr> ysrn = ?e, retriever = ?r \<rparr>"
  let ?qe = "QueryEmbedding_from_numpy [1]"
  let ?q = "\<lparr> query_id = ''q'', query_text = ''t'', q_embedding = Some ?qe, constraints = [] \<rparr>"
  let ?c = "ContextBlock_new ''a'' ''x'' (Some (ContextEmbedding_from_numpy [1]))"
  have qv: "qvector ?qe = [1]" by (simp add: QueryEmbedding_from_numpy_def)
  have q: "q_embedding ?q = Some ?qe" by simp
  have qv': "qvector (the (q_embedding ?q)) = [1]" by (simp add: qv)
  have emb: "embedding ?c = Some (ContextEmbedding_from_numpy [1])"
    by (simp add: ContextBlock_new_def)
  have vec: "vector (ContextEmbedding_from_numpy [1]) = [1]"
    by (simp add: ContextEmbedding_from_numpy_def)
  have dims: "\<forall>c \<in> set [?c]. \<forall>ce. embedding c = Some ce \<longrightarrow> length (vector ce) = length [1::real]"
    by (simp add: emb vec)
  have dims': "\<forall>c \<in> set [?c]. \<forall>ce. embedding c = Some ce \<longrightarrow> length (vector ce) = length (qvector ?qe)"
    using dims unfolding qv .
  have W: "length (W_gate ?r) = length (qvector ?qe)"
    using unit_retriever_shape(1) by (simp add: qv)
  have valid: "filter (\<lambda>c. embedding c \<noteq> None) [?c] = [?c]"
    by (simp add: emb)
  obtain fs where ret: "retrieve argsort_insertion ?r ?q [?c] 10 =
               Inr (map (\<lambda>idx. ([?c] ! idx) \<lparr> relevance_score := Some (fs ! idx) \<rparr>)
                      (py_slice_to 10 (rev (argsort_insertion fs))))"
      and fs: "fs = map (\<lambda>c. dot (qvector ?qe) (vector (the (embedding c))) * mean_gate_of (length [?c]) [1 / 2]) [?c]"
    using retrieve_eq[OF q dims' W unit_retriever_shape(2) argsort_insertion_contract, of 10]
      compute_gate_unit
    unfolding valid qv by auto
  obtain x where fsx: "fs = [x]" unfolding fs by simp
  define results where "results = [?c \<lparr> relevance_score := Some x \<rparr>]"
  have ret': "retrieve argsort_insertion ?r ?q [?c] 10 = Inr results"
    unfolding ret fsx argsort_insertion_single results_def by (simp add: py_slice_to_def)
  have rne: "results \<noteq> []" by (simp add: results_def)
  have lenv: "length (vector (ContextEmbedding_from_numpy [1])) = length (qvector ?qe)"
    by (simp add: vec qv)
  obtain context' where cl: "classify_context_with (\<lambda>_. True) ?e ?c ?q = Inr context'"
    using classify_context_ok[OF emb q lenv init_no_W, of "\<lambda>_. True"] by blast
  have hW: "length (W_gate (retriever ?h)) = length [1::real]"
    using unit_retriever_shape(1) by simp
  have hb: "length (gate_bias (retriever ?h)) = ncols (W_gate (retriever ?h))"
    using unit_retriever_shape(2) by simp
  have he: "W_relevance (ysrn ?h) = None" using init_no_W by simp
  obtain result where pipe: "submit_query_with (\<lambda>_. True) argsort_insertion ?h ''q'' ''t'' None [1] [?c] 0 = Inr result"
    using submit_query_ok[OF dims hW hb he argsort_insertion_contract,
        of "\<lambda>_. True" "''q''" "''t''" None 0]
    by blast
  have fresh: "superfluous_score ?c = None" "noise_score ?c = None"
    by (simp_all add: ContextBlock_new_def)
  have l: "length [?c] = 1" by simp
  have main: "(\<forall>ctx \<in> set results. \<exists>final_scores idx.
          final_scores_of ?r [1] [?c] = Inr final_scores
        \<and> idx < 1
        \<and> ctx = ([?c] ! idx) \<lparr> relevance_score := Some (final_scores ! idx) \<rparr>
        \<and> relevance_score ctx = Some (final_scores ! idx)
        \<and> superfluous_score ctx = superfluous_score ([?c] ! idx)
        \<and> noise_score ctx = noise_score ([?c] ! idx))
    \<and> (relevance_score context' \<noteq> None \<and> superfluous_score context' \<noteq> None
          \<and> noise_score context' \<noteq> None)
    \<and> (\<forall>ctx \<in> set (contexts result). relevance_score ctx \<noteq> None
          \<and> superfluous_score ctx \<noteq> None \<and> noise_score ctx \<noteq> None)"
    using scores_after_operations[OF ret' cl pipe] unfolding valid qv' l .
  have idx0: "[?c] ! idx = ?c" if "idx < 1" for idx :: nat using that by simp
  have first: "\<forall>ctx \<in> set results. \<exists>final_scores idx.
          final_scores_of ?r [1] [?c] = Inr final_scores
        \<and> idx < 1
        \<and> ctx = ([?c] ! idx) \<lparr> relevance_score := Some (final_scores ! idx) \<rparr>
        \<and> relevance_score ctx = Some (final_scores ! idx)
        \<and> superfluous_score ctx = None \<and> noise_score ctx = None"
  proof
    fix ctx assume "ctx \<in> set results"
    with main obtain final_scores idx where
          a: "final_scores_of ?r [1] [?c] = Inr final_scores"
      and i: "idx < 1"
      and c: "ctx = ([?c] ! idx) \<lparr> relevance_score := Some (final_scores ! idx) \<rparr>"
      and r: "relevance_score ctx = Some (final_scores ! idx)"
      and s: "superfluous_score ctx = superfluous_score ([?c] ! idx)"
      and n: "noise_score ctx = noise_score ([?c] ! idx)"
      by blast
    have "superfluous_score ctx = None" "noise_score ctx = None"
      using s n fresh unfolding idx0[OF i] by simp_all
    with a i c r show "\<exists>final_scores idx.
          final_scores_of ?r [1] [?c] = Inr final_scores
        \<and> idx < 1
        \<and> ctx = ([?c] ! idx) \<lparr> relevance_score := Some (final_scores ! idx) \<rparr>
        \<and> relevance_score ctx = Some (final_scores ! idx)
        \<and> superfluous_score ctx = None \<and> noise_score ctx = None"
      by blast
  qed
  show ?thesis
    using ret' rne cl pipe first main
    unfolding classify_context_def submit_query_def
    by (intro exI[of _ results] exI[of _ context'] exI[of _ result]) blast
qed

theorem retrieve_sets_relevance_only_counterexample:
  "retrieve argsort_insertion (GatedContextRetriever_init 1 1 0 [[0]])
        \<lparr> query_id = ''q'', query_text = ''t'',
          q_embedding = Some (QueryEmbedding_from_numpy [1]), constraints = [] \<rparr>
        [ContextBlock_new ''a'' ''x'' (Some (ContextEmbedding_from_numpy [1]))] 10
     = Inr [\<lparr> block_id = ''a'', content = ''x'',
              embedding = Some (ContextEmbedding_from_numpy [1]),
              metadata = [], created_at = 0,
              relevance_score = Some (1 / 2), superfluous_score = None, noise_score = None \<rparr>]"
proof -
  let ?r = "GatedContextRetriever_init 1 1 0 [[0]]"
  let ?qe = "QueryEmbedding_from_numpy [1]"
  let ?q = "\<lparr> query_id = ''q'', query_text = ''t'', q_embedding = Some ?qe, constraints = [] \<rparr>"
  let ?cs = "[ContextBlock_new ''a'' ''x'' (Some (ContextEmbedding_from_numpy [1]))]"
  have qv: "qvector ?qe = [1]" by (simp add: QueryEmbedding_from_numpy_def)
  have h1: "q_embedding ?q = Some ?qe" by simp
  have h2: "\<forall>c \<in> set ?cs. \<forall>ce. embedding c = Some ce \<longrightarrow> length (vector ce) = length (qvector ?qe)"
    by (simp add: qv ContextBlock_new_def ContextEmbedding_from_numpy_def)
  have h3: "length (W_gate ?r) = length (qvector ?qe)"
    using unit_retriever_shape(1) by (simp add: qv)
  have valid: "filter (\<lambda>c. embedding c \<noteq> None) ?cs = ?cs"
    by (simp add: ContextBlock_new_def)
  obtain gate fs where gate: "compute_gate ?r (qvector ?qe) = Inr gate"
    and fs: "fs = map (\<lambda>c. dot (qvector ?qe) (vector (the (embedding c))) * mean_gate_of (length ?cs) gate) ?cs"
    and R: "retrieve argsort_insertion ?r ?q ?cs 10 =
               Inr (map (\<lambda>idx. (?cs ! idx) \<lparr> relevance_score := Some (fs ! idx) \<rparr>)
                      (py_slice_to 10 (rev (argsort_insertion fs))))"
    using retrieve_eq[OF h1 h2 h3 unit_retriever_shape(2) argsort_insertion_contract, of 10]
    unfolding valid by blast
  have g: "gate = [1 / 2]" using gate compute_gate_unit by (simp add: qv)
  have fs1: "fs = [1 / 2]"
    unfolding fs
    by (simp add: qv ContextBlock_new_def ContextEmbedding_from_numpy_def dot_def mean_gate_of_def g)
  show ?thesis
    unfolding R fs1 argsort_insertion_single by (simp add: py_slice_to_def ContextBlock_new_def)
qed

subsection \<open>Statistics of an empty result\<close>

text \<open>
  Claim C5 (the behaviour of the code). When the final ranked list of the pipeline is
  empty, the two statistics are the mean of an empty list, which numpy evaluates to NaN
  (\<open>None\<close> here), not \<open>0.0\<close>.
\<close>
theorem empty_result_statistics:
  assumes "submit_query_with converged np_argsort handler qid text cons emb pool elapsed = Inr result"
    and "contexts result = []"
  shows "avg_relevance result = None \<and> avg_noise result = None"
  using submit_query_Inr[OF assms(1)] assms(2) by (auto simp: np_mean_def)

theorem empty_result_statistics_witness:
  "\<exists>result. submit_query argsort_insertion
        \<lparr> ysrn = YSRNEngine_init (3/10) (1/10) 64,
          retriever = GatedContextRetriever_init 1 1 0 [[0]] \<rparr>
        ''q'' ''t'' None [1] [] 0 = Inr result
     \<and> contexts result = [] \<and> total_candidates result = 0
     \<and> avg_relevance result = None \<and> avg_noise result = None"
proof -
  let ?h = "\<lparr> ysrn = YSRNEngine_init (3/10) (1/10) 64,
          retriever = GatedContextRetriever_init 1 1 0 [[0]] \<rparr>"
  let ?res = "\<lparr> result_query_id = ''q'', contexts = [], total_candidates = 0,
                processing_time_ms = 0, avg_relevance = np_mean [], avg_noise = np_mean [] \<rparr>"
  have run: "submit_query_with (\<lambda>_. True) argsort_insertion ?h ''q'' ''t'' None [1] [] 0 = Inr ?res"
    by (simp add: submit_query_with_def retrieve_def bindE_def sort_reverse_def)
  have empty: "contexts ?res = []" by simp
  show ?thesis
    using empty_result_statistics[OF run empty] run
    unfolding submit_query_def by (intro exI[of _ ?res]) simp
qed

end
